theory Spec2Isabelle
  imports Main "HOL-Library.Word"
begin

section \<open>Data model (QuackMeshTypes.h, ESPNowClient.h)\<close>

text \<open>
  Machine integers are words: \<open>uint8_t\<close> is \<open>8 word\<close>, \<open>int16_t\<close> is \<open>16 word\<close> read
  through \<open>sint\<close>, and \<open>u_long\<close> is \<open>32 word\<close> (\<open>unsigned long\<close> on the 32-bit ESP8266
  and ESP32 targets of platformio.ini). Byte arrays are lists of bytes; \<open>memcpy (d, s, 6)\<close>
  is \<open>take 6 s\<close>. Fields of different structs that share a name in the source carry a
  prefix for their struct (\<open>m_\<close> Message, \<open>c_\<close> ConfirmedMessage, \<open>q_\<close> EnqueuedMessage,
  \<open>s_\<close> SeenMessageEntry, \<open>r_\<close> RoutingEntry, \<open>sd_\<close> SendingData, \<open>rd_\<close> ReceivedData).
\<close>

type_synonym uint8_t = "8 word"
type_synonym int16_t = "16 word"
type_synonym u_long = "32 word"
type_synonym address = "uint8_t list"

datatype error = BadFunctionCall | BadOptionalAccess | EmptyQueueFront | BufferOverrun

datatype EnqueuedMessageType = Unconfirmed | Confirmed | Forwarded | Acknowledgement

datatype ESPNowSentStatus = Undetermined | SendSuccess | SendBroadcast | PartialFail | Fail

record Message =
  m_networkID :: "uint8_t list"
  m_type :: uint8_t
  m_id :: uint8_t
  m_hopCount :: uint8_t
  m_srcAddress :: address
  m_destAddress :: address
  m_len :: uint8_t
  m_data :: "uint8_t list"

record ConfirmedMessage =
  c_isSent :: bool
  c_timestamp :: int16_t
  c_id :: uint8_t
  c_destAddress :: address

record EnqueuedMessage =
  q_type :: EnqueuedMessageType
  q_channel :: int
  q_message :: Message

record SeenMessageEntry =
  s_id :: uint8_t
  s_srcAddress :: address
  s_destAddress :: address
  s_timestamp :: u_long
  s_type :: EnqueuedMessageType

record RoutingEntry =
  r_destination :: address
  r_link :: address
  r_hops :: uint8_t
  r_timestamp :: int16_t

record ReceivedData =
  rd_srcAddress :: address
  rd_data :: "uint8_t list"
  rd_dataLength :: uint8_t

record SendingData =
  sd_destAddress :: address
  sd_data :: "uint8_t list"
  sd_dataLength :: uint8_t
  sd_maxTriesLeft :: uint8_t
  sd_channel :: int

text \<open>\<open>isAddressMatching\<close>: \<open>memcmp\<close> over six bytes.\<close>

definition isAddressMatching :: "address \<Rightarrow> address \<Rightarrow> bool" where
  "isAddressMatching actualAddress expectedAddress =
     (take 6 actualAddress = take 6 expectedAddress)"

definition BROADCAST_ADDRESS :: address where
  "BROADCAST_ADDRESS = [0xff, 0xff, 0xff, 0xff, 0xff, 0xff]"

text \<open>
  The constructor of \<open>Message\<close>: the payload array \<open>data[232]\<close> is zero-initialised and
  \<open>memcpy\<close> copies \<open>len\<close> bytes from the argument into it. A \<open>len\<close> above 232, or above
  what the argument holds, runs over a buffer, which is undefined in C++; the model stops
  with \<open>BufferOverrun\<close>.
\<close>

definition Message_ctor ::
  "uint8_t list \<Rightarrow> uint8_t \<Rightarrow> uint8_t \<Rightarrow> uint8_t \<Rightarrow> address \<Rightarrow> address \<Rightarrow> uint8_t
     \<Rightarrow> uint8_t list \<Rightarrow> error + Message" where
  "Message_ctor networkID type ident hopCount srcAddress destAddress len dat =
     (if 232 < unat len \<or> length dat < unat len then Inl BufferOverrun
      else
        Inr \<lparr> m_networkID = take 2 networkID, m_type = type, m_id = ident,
              m_hopCount = hopCount, m_srcAddress = take 6 srcAddress,
              m_destAddress = take 6 destAddress, m_len = len,
              m_data = take (unat len) dat @ replicate (232 - unat len) 0 \<rparr>)"

text \<open>The bytes of a \<open>Message\<close> as \<open>reinterpret_cast\<close> exposes them (18-byte header, payload).\<close>

definition Message_bytes :: "Message \<Rightarrow> uint8_t list" where
  "Message_bytes m =
     m_networkID m @ [m_type m, m_id m, m_hopCount m] @ m_srcAddress m @ m_destAddress m
       @ [m_len m] @ m_data m"

text \<open>
  The constructor of \<open>ReceivedData\<close> copies \<open>dataLength\<close> bytes into \<open>data[250]\<close>, with
  the same overrun beyond 250 bytes or beyond the argument.
\<close>

definition ReceivedData_ctor :: "address \<Rightarrow> uint8_t list \<Rightarrow> uint8_t \<Rightarrow> error + ReceivedData" where
  "ReceivedData_ctor srcAddress dat dataLength =
     (if 250 < unat dataLength \<or> length dat < unat dataLength then Inl BufferOverrun
      else
        Inr \<lparr> rd_srcAddress = take 6 srcAddress,
              rd_data = take (unat dataLength) dat @ replicate (250 - unat dataLength) 0,
              rd_dataLength = dataLength \<rparr>)"

section \<open>The link adapter (ESPNowClient.cpp)\<close>

text \<open>
  The static members and the fields of \<open>ESPNowClient\<close> form one record. A
  \<open>std::function\<close> member is modelled by whether it holds a target; what the target does
  belongs to the caller, so an invocation is returned as an event.
\<close>

record ESPNowClient =
  RECEIVED_DATA :: "ReceivedData list"
  NEW_RECEIVED_DATA :: ReceivedData
  NEW_DATA_RECEIVED_MUTEX :: bool
  RECIEVED_DATA_ACCESS_MUTEX :: bool
  WAITING_FOR_DATA_SENT_MUTEX :: bool
  DATA_SENT_UPDATE_MUTEX :: bool
  LAST_SENT_STATUS :: ESPNowSentStatus
  mNextDataToSend :: "SendingData option"
  mMessageProcessInterval :: u_long
  mLastMessageProcessedTs :: u_long
  mMessageSendInterval :: u_long
  mLastMessageSentTs :: u_long
  mMACAddress :: address
  mOnDataReceivedCallback :: bool
  mOnDataSentCallback :: bool

datatype ClientEvent = SentStatus ESPNowSentStatus | DataReceived ReceivedData

text \<open>The member initialisers of ESPNowClient.h and the static definitions of the .cpp file.\<close>

definition ESPNowClient_init :: "address \<Rightarrow> ESPNowClient" where
  "ESPNowClient_init mac =
     \<lparr> RECEIVED_DATA = [],
       NEW_RECEIVED_DATA = \<lparr> rd_srcAddress = replicate 6 0, rd_data = replicate 250 0,
                              rd_dataLength = 0 \<rparr>,
       NEW_DATA_RECEIVED_MUTEX = False,
       RECIEVED_DATA_ACCESS_MUTEX = False,
       WAITING_FOR_DATA_SENT_MUTEX = False,
       DATA_SENT_UPDATE_MUTEX = False,
       LAST_SENT_STATUS = Undetermined,
       mNextDataToSend = None,
       mMessageProcessInterval = 0,
       mLastMessageProcessedTs = 0,
       mMessageSendInterval = 100,
       mLastMessageSentTs = 0,
       mMACAddress = take 6 mac,
       mOnDataReceivedCallback = False,
       mOnDataSentCallback = False \<rparr>"

text \<open>
  \<open>ESPNowClient::send\<close>: \<open>-1\<close> while \<open>WAITING_FOR_DATA_SENT_MUTEX\<close> is set, otherwise the
  frame is staged in \<open>mNextDataToSend\<close> and \<open>0\<close> is returned. The \<open>int\<close> arguments are
  narrowed to the \<open>uint8_t\<close> fields. \<open>memcpy\<close> copies \<open>dataLength\<close> bytes into
  \<open>data[250]\<close>: a negative \<open>dataLength\<close>, one above 250, or one above what the argument
  holds runs over a buffer (\<open>BufferOverrun\<close>).
\<close>

definition ESPNowClient_send ::
  "address \<Rightarrow> uint8_t list \<Rightarrow> int \<Rightarrow> int \<Rightarrow> int \<Rightarrow> ESPNowClient
     \<Rightarrow> error + int \<times> ESPNowClient" where
  "ESPNowClient_send macAddress dat dataLength maxSendTries channel c =
     (if WAITING_FOR_DATA_SENT_MUTEX c then Inr (- 1, c)
      else if dataLength < 0 \<or> 250 < dataLength \<or> int (length dat) < dataLength
      then Inl BufferOverrun
      else
        let newDataToSend =
              \<lparr> sd_destAddress = take 6 macAddress,
                sd_data = take (nat dataLength) dat @ replicate (250 - nat dataLength) 0,
                sd_dataLength = word_of_int dataLength,
                sd_maxTriesLeft = word_of_int maxSendTries,
                sd_channel = channel \<rparr>
        in Inr (0, c\<lparr>mNextDataToSend := Some newDataToSend\<rparr>))"

definition sendingPossible :: "ESPNowClient \<Rightarrow> bool" where
  "sendingPossible c = (\<not> WAITING_FOR_DATA_SENT_MUTEX c)"

text \<open>
  \<open>ESPNowClient::sendNow\<close>: \<open>driverStatus\<close> is what \<open>esp_now_send\<close> returns for this
  call (\<open>0\<close> is \<open>ESP_OK\<close>).
\<close>

definition sendNow :: "int \<Rightarrow> ESPNowClient \<Rightarrow> int \<times> ESPNowClient" where
  "sendNow driverStatus c =
     (if WAITING_FOR_DATA_SENT_MUTEX c then (- 1, c)
      else if driverStatus = 0 then (driverStatus, c\<lparr>WAITING_FOR_DATA_SENT_MUTEX := True\<rparr>)
      else (driverStatus,
            c\<lparr>DATA_SENT_UPDATE_MUTEX := True, LAST_SENT_STATUS := Fail,
              WAITING_FOR_DATA_SENT_MUTEX := False\<rparr>))"

text \<open>The interrupt handlers \<open>processReceivedData\<close>/\<open>onDataReceived\<close> and \<open>processDataSent\<close>.\<close>

definition processReceivedData ::
  "address \<Rightarrow> uint8_t list \<Rightarrow> uint8_t \<Rightarrow> ESPNowClient \<Rightarrow> error + ESPNowClient" where
  "processReceivedData macAddress dat dataLength c =
     (if dataLength < 18 then Inr c
      else
        (case ReceivedData_ctor macAddress dat dataLength of
           Inl e \<Rightarrow> Inl e
         | Inr newReceivedData \<Rightarrow>
             Inr (c\<lparr>NEW_RECEIVED_DATA := newReceivedData, NEW_DATA_RECEIVED_MUTEX := True\<rparr>)))"

definition onDataReceived ::
  "address \<Rightarrow> uint8_t list \<Rightarrow> uint8_t \<Rightarrow> ESPNowClient \<Rightarrow> error + ESPNowClient" where
  "onDataReceived mac_addr dat data_len c =
     (if RECIEVED_DATA_ACCESS_MUTEX c then Inr c
      else
        (case processReceivedData mac_addr dat data_len
                (c\<lparr>RECIEVED_DATA_ACCESS_MUTEX := True\<rparr>) of
           Inl e \<Rightarrow> Inl e
         | Inr c' \<Rightarrow> Inr (c'\<lparr>RECIEVED_DATA_ACCESS_MUTEX := False\<rparr>)))"

definition processDataSent :: "int \<Rightarrow> ESPNowClient \<Rightarrow> ESPNowClient" where
  "processDataSent status c =
     (if status = 0 then c\<lparr>LAST_SENT_STATUS := SendSuccess, DATA_SENT_UPDATE_MUTEX := True\<rparr>
      else c\<lparr>LAST_SENT_STATUS := PartialFail, DATA_SENT_UPDATE_MUTEX := True\<rparr>)"

text \<open>
  \<open>ESPNowClient::processMessage\<close>: pops one buffered frame and hands it to the receive
  callback, when one is set.
\<close>

definition processMessage :: "ESPNowClient \<Rightarrow> ClientEvent list \<times> ESPNowClient" where
  "processMessage c =
     (if RECIEVED_DATA_ACCESS_MUTEX c then ([], c)
      else
        (case RECEIVED_DATA c of
           [] \<Rightarrow> ([], c)
         | firstData # rest \<Rightarrow>
             (if mOnDataReceivedCallback c then [DataReceived firstData] else [],
              c\<lparr>RECEIVED_DATA := rest\<rparr>)))"

text \<open>
  \<open>ESPNowClient::update\<close>, in the four steps of its body. \<open>mNextDataToSend.value ()\<close> on
  an empty optional is the error \<open>BadOptionalAccess\<close>.
\<close>

definition update_received :: "ESPNowClient \<Rightarrow> ESPNowClient" where
  "update_received c =
     (if NEW_DATA_RECEIVED_MUTEX c
      then c\<lparr>RECEIVED_DATA := RECEIVED_DATA c @ [NEW_RECEIVED_DATA c],
             NEW_DATA_RECEIVED_MUTEX := False\<rparr>
      else c)"

definition update_partialFail :: "ESPNowClient \<Rightarrow> error + ESPNowClient" where
  "update_partialFail c =
     (if LAST_SENT_STATUS c = PartialFail then
        (case mNextDataToSend c of
           None \<Rightarrow> Inl BadOptionalAccess
         | Some sd \<Rightarrow>
             Inr (if sd_maxTriesLeft sd = 0 then c\<lparr>LAST_SENT_STATUS := Fail\<rparr> else c))
      else Inr c)"

definition update_terminal :: "ESPNowClient \<Rightarrow> error + ClientEvent list \<times> ESPNowClient" where
  "update_terminal c =
     (if LAST_SENT_STATUS c = Fail \<or> LAST_SENT_STATUS c = SendSuccess then
        (if mOnDataSentCallback c then
           (case mNextDataToSend c of
              None \<Rightarrow> Inl BadOptionalAccess
            | Some sd \<Rightarrow>
                let c' = (if isAddressMatching (sd_destAddress sd) BROADCAST_ADDRESS
                          then c\<lparr>LAST_SENT_STATUS := SendBroadcast\<rparr> else c)
                in Inr ([SentStatus (LAST_SENT_STATUS c')],
                        c'\<lparr>mNextDataToSend := None, WAITING_FOR_DATA_SENT_MUTEX := False\<rparr>))
         else Inr ([], c\<lparr>mNextDataToSend := None, WAITING_FOR_DATA_SENT_MUTEX := False\<rparr>))
      else Inr ([], c))"

definition update_sentStatus :: "ESPNowClient \<Rightarrow> error + ClientEvent list \<times> ESPNowClient" where
  "update_sentStatus c =
     (if DATA_SENT_UPDATE_MUTEX c then
        (case update_partialFail c of
           Inl e \<Rightarrow> Inl e
         | Inr c1 \<Rightarrow>
             (case update_terminal c1 of
                Inl e \<Rightarrow> Inl e
              | Inr (evs, c2) \<Rightarrow>
                  Inr (evs, c2\<lparr>DATA_SENT_UPDATE_MUTEX := False,
                                LAST_SENT_STATUS := Undetermined\<rparr>)))
      else Inr ([], c))"

definition update_emit :: "u_long \<Rightarrow> int \<Rightarrow> ESPNowClient \<Rightarrow> ESPNowClient" where
  "update_emit time driverStatus c =
     (case mNextDataToSend c of
        None \<Rightarrow> c
      | Some sd \<Rightarrow>
          (if \<not> DATA_SENT_UPDATE_MUTEX c \<and> \<not> WAITING_FOR_DATA_SENT_MUTEX c
               \<and> time - mLastMessageSentTs c \<ge> mMessageSendInterval c
           then
             let c1 = snd (sendNow driverStatus (c\<lparr>mLastMessageSentTs := time\<rparr>))
             in c1\<lparr>mNextDataToSend := Some (sd\<lparr>sd_maxTriesLeft := sd_maxTriesLeft sd - 1\<rparr>)\<rparr>
           else c))"

definition update_process :: "u_long \<Rightarrow> ESPNowClient \<Rightarrow> ClientEvent list \<times> ESPNowClient" where
  "update_process time c =
     (if time - mLastMessageProcessedTs c \<ge> mMessageProcessInterval c
           \<and> \<not> WAITING_FOR_DATA_SENT_MUTEX c
      then processMessage (c\<lparr>mMessageProcessInterval := time\<rparr>)
      else ([], c))"

definition ESPNowClient_update ::
  "u_long \<Rightarrow> int \<Rightarrow> ESPNowClient \<Rightarrow> error + ClientEvent list \<times> ESPNowClient" where
  "ESPNowClient_update time driverStatus c =
     (case update_sentStatus (update_received c) of
        Inl e \<Rightarrow> Inl e
      | Inr (evs1, c1) \<Rightarrow>
          (case update_process time (update_emit time driverStatus c1) of
             (evs2, c2) \<Rightarrow> Inr (evs1 @ evs2, c2)))"

section \<open>The mesh device (QuackMeshDevice.cpp)\<close>

text \<open>
  The fields of \<open>QuackMeshDevice\<close>, the file-scope counter \<open>idid\<close>, and two traces: the
  arguments of every invocation of the status callback and of the message callback, in
  order. The two \<open>std::function\<close> members are modelled by whether they hold a target.
  \<open>millis ()\<close> is an argument of the functions that read the clock; the readings within
  one call are taken to be equal.
\<close>

record QuackMeshDevice =
  mMessageQueue :: "EnqueuedMessage list"
  mMessagesLeftToConfirm :: "ConfirmedMessage list"
  mSeenMessages :: "SeenMessageEntry list"
  mMaxSeenMessagesQueueSize :: nat
  mSeenMessagesCleanupUpdateTs :: u_long
  mSeenMessagesCleanupInterval :: u_long
  mSeenMessagesCleanupTimeout :: u_long
  mLastTimeoutCheckTs :: u_long
  mMessageSendingInProgress :: bool
  mClient :: ESPNowClient
  mSentStatusCallback :: bool
  mOnMessageCallback :: bool
  idid :: uint8_t
  statusCalls :: "ESPNowSentStatus list"
  messageCalls :: "(uint8_t \<times> address \<times> uint8_t list \<times> uint8_t) list"

definition getMACAddress :: "'a QuackMeshDevice_scheme \<Rightarrow> address" where
  "getMACAddress d = mMACAddress (mClient d)"

text \<open>\<open>QuackMeshDevice::getMACAddressForDestination\<close>: always the broadcast address.\<close>

definition getMACAddressForDestination :: "address \<Rightarrow> address" where
  "getMACAddressForDestination destination = BROADCAST_ADDRESS"

definition getNewMessageId :: "'a QuackMeshDevice_scheme \<Rightarrow> uint8_t \<times> 'a QuackMeshDevice_scheme" where
  "getNewMessageId d = (idid d, d\<lparr>idid := idid d + 1\<rparr>)"

definition enqueueNewMessage ::
  "uint8_t list \<Rightarrow> nat \<Rightarrow> address \<Rightarrow> bool \<Rightarrow> 'a QuackMeshDevice_scheme
     \<Rightarrow> error + 'a QuackMeshDevice_scheme" where
  "enqueueNewMessage dat dataLength destination confirmed d =
     (case getNewMessageId d of
        (newId, d1) \<Rightarrow>
          (case Message_ctor [0, 0] (if confirmed then 1 else 0) newId 3
                  (getMACAddress d1) destination (of_nat dataLength) dat of
             Inl e \<Rightarrow> Inl e
           | Inr newMessage \<Rightarrow>
               let newEnqueuedMessage =
                     \<lparr> q_type = (if confirmed then Confirmed else Unconfirmed), q_channel = 0,
                       q_message = newMessage \<rparr>
               in Inr (d1\<lparr>mMessageQueue := mMessageQueue d1 @ [newEnqueuedMessage]\<rparr>)))"

definition sendMessage ::
  "uint8_t list \<Rightarrow> nat \<Rightarrow> address \<Rightarrow> 'a QuackMeshDevice_scheme
     \<Rightarrow> error + 'a QuackMeshDevice_scheme" where
  "sendMessage dat dataLength destination d = enqueueNewMessage dat dataLength destination False d"

definition sendConfirmedMessage ::
  "uint8_t list \<Rightarrow> nat \<Rightarrow> address \<Rightarrow> 'a QuackMeshDevice_scheme
     \<Rightarrow> error + 'a QuackMeshDevice_scheme" where
  "sendConfirmedMessage dat dataLength destination d =
     enqueueNewMessage dat dataLength destination True d"

text \<open>
  \<open>QuackMeshDevice::processNextMessage\<close>. The PendingConfirmation of a Confirmed frame
  is created here, when the link adapter accepts the frame.
\<close>

definition processNextMessage ::
  "'a QuackMeshDevice_scheme \<Rightarrow> error + 'a QuackMeshDevice_scheme" where
  "processNextMessage d =
     (if mMessageSendingInProgress d then Inr d
      else
        (case mMessageQueue d of
           [] \<Rightarrow> Inr d
         | nextMessage # rest \<Rightarrow>
             (if \<not> sendingPossible (mClient d) then Inr d
              else
                (case ESPNowClient_send
                        (getMACAddressForDestination (m_destAddress (q_message nextMessage)))
                        (Message_bytes (q_message nextMessage))
                        (18 + uint (m_len (q_message nextMessage))) 2 (q_channel nextMessage)
                        (mClient d) of
                   Inl e \<Rightarrow> Inl e
                 | Inr (sent, client) \<Rightarrow>
                     let d1 = d\<lparr>mClient := client, mMessageSendingInProgress := True\<rparr>
                     in if sent = 0 then
                          (if q_type nextMessage = Confirmed then
                             Inr (d1\<lparr>mMessagesLeftToConfirm := mMessagesLeftToConfirm d1 @
                                  [\<lparr> c_isSent = True, c_timestamp = 1000,
                                     c_id = m_id (q_message nextMessage),
                                     c_destAddress =
                                       take 6 (m_destAddress (q_message nextMessage)) \<rparr>]\<rparr>)
                           else Inr d1)
                        else Inr (d1\<lparr>mMessageSendingInProgress := False,
                                    mMessageQueue := rest\<rparr>)))))"

text \<open>\<open>QuackMeshDevice::isMessageAlreadySeen\<close> and its loop over \<open>mSeenMessages\<close>.\<close>

fun seenLoop :: "EnqueuedMessageType \<Rightarrow> Message \<Rightarrow> SeenMessageEntry list \<Rightarrow> bool" where
  "seenLoop type message [] = False"
| "seenLoop type message (it # rest) =
     (if s_timestamp it > 0 \<and> s_id it = m_id message
           \<and> isAddressMatching (s_srcAddress it) (m_srcAddress message)
           \<and> isAddressMatching (s_destAddress it) (m_destAddress message)
           \<and> s_type it = type
      then True else seenLoop type message rest)"

definition isMessageAlreadySeen :: "Message \<Rightarrow> 'a QuackMeshDevice_scheme \<Rightarrow> bool" where
  "isMessageAlreadySeen message d =
     (let type = (if m_type message = 0 then Unconfirmed
                  else if m_type message = 1 then Confirmed
                  else if m_type message = 3 then Acknowledgement
                  else Forwarded)
      in seenLoop type message (mSeenMessages d))"

text \<open>
  \<open>QuackMeshDevice::rememberMessage\<close>. \<open>erase (begin ())\<close> is \<open>tl\<close>; the vector is empty
  there only when \<open>mMaxSeenMessagesQueueSize\<close> is \<open>0\<close>.
\<close>

definition rememberMessage :: "Message \<Rightarrow> 'a QuackMeshDevice_scheme \<Rightarrow> 'a QuackMeshDevice_scheme" where
  "rememberMessage message d =
     (if isMessageAlreadySeen message d then d
      else
        let type = (if m_type message = 0 then Unconfirmed
                    else if m_type message = 1 then Confirmed
                    else if m_type message = 3 then Acknowledgement
                    else Forwarded);
            newSeenMessage =
              \<lparr> s_id = m_id message, s_srcAddress = take 6 (m_srcAddress message),
                s_destAddress = take 6 (m_destAddress message),
                s_timestamp = mSeenMessagesCleanupTimeout d, s_type = type \<rparr>;
            seen = (if length (mSeenMessages d) \<ge> mMaxSeenMessagesQueueSize d
                    then tl (mSeenMessages d) else mSeenMessages d)
        in d\<lparr>mSeenMessages := seen @ [newSeenMessage]\<rparr>)"

definition sendAcknowledgement ::
  "Message \<Rightarrow> 'a QuackMeshDevice_scheme \<Rightarrow> error + 'a QuackMeshDevice_scheme" where
  "sendAcknowledgement message d =
     (case Message_ctor [0, 0] 3 (m_id message) 3 (getMACAddress d) (m_srcAddress message)
             0 [] of
        Inl e \<Rightarrow> Inl e
      | Inr acknowledgementMessage \<Rightarrow>
          let newEnqueuedMessage =
                \<lparr> q_type = Acknowledgement, q_channel = 0,
                  q_message = acknowledgementMessage \<rparr>
          in Inr (d\<lparr>mMessageQueue := mMessageQueue d @ [newEnqueuedMessage]\<rparr>))"

text \<open>
  The search loop of \<open>processReceivedAcknowledgement\<close> and of \<open>onMessageSent\<close>: erase
  the first entry of \<open>mMessagesLeftToConfirm\<close> with the given id and address and stop;
  \<open>None\<close> when the loop ends without a match.
\<close>

fun eraseConfirmed :: "uint8_t \<Rightarrow> address \<Rightarrow> ConfirmedMessage list \<Rightarrow> ConfirmedMessage list option" where
  "eraseConfirmed ident addr [] = None"
| "eraseConfirmed ident addr (it # rest) =
     (if c_id it = ident \<and> isAddressMatching (c_destAddress it) addr then Some rest
      else map_option ((#) it) (eraseConfirmed ident addr rest))"

definition processReceivedAcknowledgement ::
  "Message \<Rightarrow> 'a QuackMeshDevice_scheme \<Rightarrow> 'a QuackMeshDevice_scheme" where
  "processReceivedAcknowledgement message d =
     (case eraseConfirmed (m_id message) (m_srcAddress message) (mMessagesLeftToConfirm d) of
        None \<Rightarrow> d
      | Some left \<Rightarrow>
          (if mSentStatusCallback d
           then d\<lparr>mMessagesLeftToConfirm := left, statusCalls := statusCalls d @ [SendSuccess]\<rparr>
           else d\<lparr>mMessagesLeftToConfirm := left\<rparr>))"

text \<open>
  \<open>QuackMeshDevice::updateSeenMessages\<close>. \<open>timestamp\<close> is a \<open>u_long\<close>: the subtraction
  wraps and \<open>timestamp <= 0\<close> is an unsigned comparison.
\<close>

fun seenCleanupLoop :: "u_long \<Rightarrow> SeenMessageEntry list \<Rightarrow> SeenMessageEntry list" where
  "seenCleanupLoop diff [] = []"
| "seenCleanupLoop diff (it # rest) =
     (let it' = it\<lparr>s_timestamp := s_timestamp it - diff\<rparr>
      in if s_timestamp it' \<le> 0 then seenCleanupLoop diff rest
         else it' # seenCleanupLoop diff rest)"

definition updateSeenMessages :: "u_long \<Rightarrow> 'a QuackMeshDevice_scheme \<Rightarrow> 'a QuackMeshDevice_scheme" where
  "updateSeenMessages millis d =
     (if millis - mSeenMessagesCleanupUpdateTs d < mSeenMessagesCleanupInterval d then d
      else
        let diff = millis - mSeenMessagesCleanupUpdateTs d
        in d\<lparr>mSeenMessagesCleanupUpdateTs := millis,
             mSeenMessages := seenCleanupLoop diff (mSeenMessages d)\<rparr>)"

text \<open>
  \<open>QuackMeshDevice::checkForConfirmationTimeout\<close>. \<open>timestamp\<close> is an \<open>int16_t\<close>: it is
  converted to \<open>u_long\<close> for the subtraction, the difference is narrowed back to 16 bits,
  and \<open>timestamp <= 0\<close> is a signed comparison. The loop returns the entries kept and the
  status callbacks made, in order.
\<close>

fun timeoutLoop ::
  "u_long \<Rightarrow> bool \<Rightarrow> ConfirmedMessage list \<Rightarrow> ConfirmedMessage list \<times> ESPNowSentStatus list" where
  "timeoutLoop diff callback [] = ([], [])"
| "timeoutLoop diff callback (it # rest) =
     (let it' = it\<lparr>c_timestamp := ucast ((scast (c_timestamp it) :: u_long) - diff)\<rparr>
      in case timeoutLoop diff callback rest of
           (kept, calls) \<Rightarrow>
             if c_timestamp it' \<le>s 0 then (kept, (if callback then [Fail] else []) @ calls)
             else (it' # kept, calls))"

definition checkForConfirmationTimeout ::
  "u_long \<Rightarrow> 'a QuackMeshDevice_scheme \<Rightarrow> 'a QuackMeshDevice_scheme" where
  "checkForConfirmationTimeout millis d =
     (let diff = millis - mLastTimeoutCheckTs d
      in case timeoutLoop diff (mSentStatusCallback d) (mMessagesLeftToConfirm d) of
           (kept, calls) \<Rightarrow>
             d\<lparr>mLastTimeoutCheckTs := millis, mMessagesLeftToConfirm := kept,
               statusCalls := statusCalls d @ calls\<rparr>)"

text \<open>
  \<open>QuackMeshDevice::handleOwnMessage\<close>. Calling an empty \<open>std::function\<close> is the error
  \<open>BadFunctionCall\<close>.
\<close>

definition handleOwnMessage ::
  "Message \<Rightarrow> 'a QuackMeshDevice_scheme \<Rightarrow> error + 'a QuackMeshDevice_scheme" where
  "handleOwnMessage message d =
     (if isMessageAlreadySeen message d then Inr d
      else
        let d1 = rememberMessage message d
        in if m_type message = 0 then
             Inr (if mOnMessageCallback d1
                  then d1\<lparr>messageCalls := messageCalls d1 @
                            [(0, m_srcAddress message, m_data message, m_len message)]\<rparr>
                  else d1)
           else if m_type message = 1 then
             (case sendAcknowledgement message d1 of
                Inl e \<Rightarrow> Inl e
              | Inr d2 \<Rightarrow>
                  Inr (if mOnMessageCallback d2
                       then d2\<lparr>messageCalls := messageCalls d2 @
                                 [(1, m_srcAddress message, m_data message, m_len message)]\<rparr>
                       else d2))
           else if m_type message = 3 then Inr (processReceivedAcknowledgement message d1)
           else if mOnMessageCallback d1 then
             Inr (d1\<lparr>messageCalls := messageCalls d1 @
                       [(m_type message, m_srcAddress message, m_data message, m_len message)]\<rparr>)
           else Inl BadFunctionCall)"

text \<open>\<open>QuackMeshDevice::handleForeignMessage\<close>: the frame is thrown away.\<close>

definition handleForeignMessage ::
  "Message \<Rightarrow> 'a QuackMeshDevice_scheme \<Rightarrow> error + 'a QuackMeshDevice_scheme" where
  "handleForeignMessage message d = Inr d"

text \<open>
  \<open>QuackMeshDevice::onMessageSent\<close>. \<open>mMessageQueue.front ()\<close> of an empty queue is
  undefined in C++; the model stops with \<open>EmptyQueueFront\<close>.
\<close>

definition onMessageSent ::
  "ESPNowSentStatus \<Rightarrow> 'a QuackMeshDevice_scheme \<Rightarrow> error + 'a QuackMeshDevice_scheme" where
  "onMessageSent status d =
     (case mMessageQueue d of
        [] \<Rightarrow> Inl EmptyQueueFront
      | front # rest \<Rightarrow>
          let d1 =
                (if q_type front = Confirmed then
                   (if status = Fail then
                      let d' = (case eraseConfirmed (m_id (q_message front))
                                       (m_destAddress (q_message front))
                                       (mMessagesLeftToConfirm d) of
                                  None \<Rightarrow> d
                                | Some left \<Rightarrow> d\<lparr>mMessagesLeftToConfirm := left\<rparr>)
                      in if mSentStatusCallback d'
                         then d'\<lparr>statusCalls := statusCalls d' @ [status]\<rparr> else d'
                    else d)
                 else d)
          in Inr (d1\<lparr>mMessageSendingInProgress := False, mMessageQueue := rest\<rparr>))"

text \<open>
  \<open>QuackMeshDevice::onMessageReceived\<close>: \<open>memcpy\<close> copies \<open>dataLength\<close> received bytes
  over a zero-initialised \<open>Message\<close> of 250 bytes (\<open>BufferOverrun\<close> beyond 250 bytes or
  beyond the received data). \<open>handleForeignMessage\<close> is virtual, so the handler of the
  dynamic type is an argument.
\<close>

definition Message_decode :: "ReceivedData \<Rightarrow> error + Message" where
  "Message_decode rd =
     (if 250 < unat (rd_dataLength rd) \<or> length (rd_data rd) < unat (rd_dataLength rd)
      then Inl BufferOverrun
      else
        let b = take (unat (rd_dataLength rd)) (rd_data rd)
                  @ replicate (250 - unat (rd_dataLength rd)) 0
        in Inr \<lparr> m_networkID = take 2 b, m_type = b ! 2, m_id = b ! 3, m_hopCount = b ! 4,
                 m_srcAddress = take 6 (drop 5 b), m_destAddress = take 6 (drop 11 b),
                 m_len = b ! 17, m_data = drop 18 b \<rparr>)"

definition onMessageReceived ::
  "(Message \<Rightarrow> 'a QuackMeshDevice_scheme \<Rightarrow> error + 'a QuackMeshDevice_scheme)
     \<Rightarrow> ReceivedData \<Rightarrow> 'a QuackMeshDevice_scheme \<Rightarrow> error + 'a QuackMeshDevice_scheme" where
  "onMessageReceived handleForeign rd d =
     (case Message_decode rd of
        Inl e \<Rightarrow> Inl e
      | Inr message \<Rightarrow>
          if isAddressMatching (m_destAddress message) (getMACAddress d)
          then handleOwnMessage message d
          else handleForeign message d)"

text \<open>
  \<open>QuackMeshDevice::begin\<close> binds the two callbacks of the link adapter to
  \<open>onMessageReceived\<close> and \<open>onMessageSent\<close>; \<open>QuackMeshDevice::update\<close> runs the link
  adapter, whose callback invocations reach these two handlers in order, then the
  maintenance steps and \<open>processNextMessage\<close>.
\<close>

definition QuackMeshDevice_begin :: "u_long \<Rightarrow> 'a QuackMeshDevice_scheme \<Rightarrow> 'a QuackMeshDevice_scheme" where
  "QuackMeshDevice_begin millis d =
     d\<lparr>mClient := (mClient d)\<lparr>mOnDataReceivedCallback := True, mOnDataSentCallback := True\<rparr>,
       mSeenMessagesCleanupUpdateTs := millis, mLastTimeoutCheckTs := millis\<rparr>"

fun dispatchEvents ::
  "(Message \<Rightarrow> 'a QuackMeshDevice_scheme \<Rightarrow> error + 'a QuackMeshDevice_scheme)
     \<Rightarrow> ClientEvent list \<Rightarrow> 'a QuackMeshDevice_scheme
     \<Rightarrow> error + 'a QuackMeshDevice_scheme" where
  "dispatchEvents handleForeign [] d = Inr d"
| "dispatchEvents handleForeign (SentStatus status # evs) d =
     (case onMessageSent status d of
        Inl e \<Rightarrow> Inl e
      | Inr d' \<Rightarrow> dispatchEvents handleForeign evs d')"
| "dispatchEvents handleForeign (DataReceived rd # evs) d =
     (case onMessageReceived handleForeign rd d of
        Inl e \<Rightarrow> Inl e
      | Inr d' \<Rightarrow> dispatchEvents handleForeign evs d')"

definition QuackMeshDevice_update ::
  "(Message \<Rightarrow> 'a QuackMeshDevice_scheme \<Rightarrow> error + 'a QuackMeshDevice_scheme)
     \<Rightarrow> u_long \<Rightarrow> int \<Rightarrow> 'a QuackMeshDevice_scheme
     \<Rightarrow> error + 'a QuackMeshDevice_scheme" where
  "QuackMeshDevice_update handleForeign millis driverStatus d =
     (case ESPNowClient_update millis driverStatus (mClient d) of
        Inl e \<Rightarrow> Inl e
      | Inr (evs, client) \<Rightarrow>
          (case dispatchEvents handleForeign evs (d\<lparr>mClient := client\<rparr>) of
             Inl e \<Rightarrow> Inl e
           | Inr d1 \<Rightarrow>
               processNextMessage
                 (checkForConfirmationTimeout millis (updateSeenMessages millis d1))))"

text \<open>A device as its member initialisers leave it, with the given MAC address.\<close>

definition QuackMeshDevice_init :: "address \<Rightarrow> QuackMeshDevice" where
  "QuackMeshDevice_init mac =
     \<lparr> mMessageQueue = [], mMessagesLeftToConfirm = [], mSeenMessages = [],
       mMaxSeenMessagesQueueSize = 10, mSeenMessagesCleanupUpdateTs = 0,
       mSeenMessagesCleanupInterval = 1000, mSeenMessagesCleanupTimeout = 2000,
       mLastTimeoutCheckTs = 0, mMessageSendingInProgress = False,
       mClient = ESPNowClient_init mac, mSentStatusCallback = False,
       mOnMessageCallback = False, idid = 0, statusCalls = [], messageCalls = [] \<rparr>"

section \<open>The router (QuackMeshRouter.cpp)\<close>

record QuackMeshRouter = QuackMeshDevice +
  mLastRoutingTableUpdateTs :: u_long
  mRoutingTableUpdateInterval :: u_long
  mRoutingTableUpdateTimeout :: u_long
  mRoutingTable :: "RoutingEntry list"
  mMaxRoutingEntries :: nat

definition QuackMeshRouter_init :: "address \<Rightarrow> QuackMeshRouter" where
  "QuackMeshRouter_init mac =
     \<lparr> mMessageQueue = [], mMessagesLeftToConfirm = [], mSeenMessages = [],
       mMaxSeenMessagesQueueSize = 10, mSeenMessagesCleanupUpdateTs = 0,
       mSeenMessagesCleanupInterval = 1000, mSeenMessagesCleanupTimeout = 2000,
       mLastTimeoutCheckTs = 0, mMessageSendingInProgress = False,
       mClient = ESPNowClient_init mac, mSentStatusCallback = False,
       mOnMessageCallback = False, idid = 0, statusCalls = [], messageCalls = [],
       mLastRoutingTableUpdateTs = 0, mRoutingTableUpdateInterval = 100,
       mRoutingTableUpdateTimeout = 10000, mRoutingTable = [], mMaxRoutingEntries = 10 \<rparr>"

text \<open>
  The loop of \<open>QuackMeshRouter::addOrUpdateRoutingInfo\<close>. Iterators are indices into
  \<open>table\<close>; \<open>it\<close> is at index \<open>i\<close>, the entries from there on are the last argument. The
  result is \<open>Some\<close> of the updated table when the loop returns from the function, \<open>None\<close>
  when it runs to the end, together with the final \<open>oldestEntry\<close> (\<open>length table\<close> is
  \<open>end ()\<close>).
\<close>

fun routingLoop ::
  "address \<Rightarrow> address \<Rightarrow> uint8_t \<Rightarrow> u_long \<Rightarrow> RoutingEntry list \<Rightarrow> nat \<Rightarrow> nat
     \<Rightarrow> RoutingEntry list \<Rightarrow> RoutingEntry list option \<times> nat" where
  "routingLoop destination link hops timeout table oldestEntry i [] = (None, oldestEntry)"
| "routingLoop destination link hops timeout table oldestEntry i (it # rest) =
     (if isAddressMatching (r_destination it) destination then
        (if hops < r_hops it then
           (Some (table[i := it\<lparr>r_hops := hops, r_timestamp := ucast timeout,
                               r_link := take 6 link\<rparr>]),
            length table)
         else
           routingLoop destination link hops timeout table
             (if r_timestamp it <s r_timestamp (table ! oldestEntry) then i else oldestEntry)
             (Suc i) rest)
      else routingLoop destination link hops timeout table oldestEntry (Suc i) rest)"

text \<open>
  \<open>QuackMeshRouter::addOrUpdateRoutingInfo\<close>: after the loop the new entry is pushed
  back; \<open>oldestEntry\<close> and \<open>mMaxRoutingEntries\<close> are not read.
\<close>

definition addOrUpdateRoutingInfo ::
  "address \<Rightarrow> address \<Rightarrow> uint8_t \<Rightarrow> 'a QuackMeshRouter_scheme \<Rightarrow> 'a QuackMeshRouter_scheme" where
  "addOrUpdateRoutingInfo destination link hops r =
     (case routingLoop destination link hops (mRoutingTableUpdateTimeout r) (mRoutingTable r)
             0 0 (mRoutingTable r) of
        (Some table, oldestEntry) \<Rightarrow> r\<lparr>mRoutingTable := table\<rparr>
      | (None, oldestEntry) \<Rightarrow>
          let newRoutingInfo =
                \<lparr> r_destination = take 6 destination, r_link = take 6 link, r_hops = hops,
                  r_timestamp = ucast (mRoutingTableUpdateTimeout r) \<rparr>
          in r\<lparr>mRoutingTable := mRoutingTable r @ [newRoutingInfo]\<rparr>)"

text \<open>
  \<open>QuackMeshRouter::forwardMessage\<close>. \<open>message.hopCount - 1\<close> is computed in \<open>int\<close>
  and narrowed to \<open>uint8_t\<close> by the constructor of \<open>Message\<close>.
\<close>

definition forwardMessage ::
  "Message \<Rightarrow> 'a QuackMeshRouter_scheme \<Rightarrow> error + 'a QuackMeshRouter_scheme" where
  "forwardMessage message r =
     (if uint (m_hopCount message) - 1 = 0 then Inr r
      else if isMessageAlreadySeen message r then Inr r
      else
        let r1 = rememberMessage message r
        in case Message_ctor [0, 0] (m_type message) (m_id message)
                  (word_of_int (uint (m_hopCount message) - 1)) (m_srcAddress message)
                  (m_destAddress message) (m_len message) (m_data message) of
             Inl e \<Rightarrow> Inl e
           | Inr forwardingMessage \<Rightarrow>
               let newEnqueuedMessage =
                     \<lparr> q_type = Forwarded, q_channel = 0, q_message = forwardingMessage \<rparr>
               in Inr (r1\<lparr>mMessageQueue := mMessageQueue r1 @ [newEnqueuedMessage]\<rparr>))"

text \<open>\<open>QuackMeshRouter::updateRoutingTable\<close>, with the \<open>int16_t\<close> arithmetic of the timeout loop.\<close>

fun routingAgeLoop :: "u_long \<Rightarrow> RoutingEntry list \<Rightarrow> RoutingEntry list" where
  "routingAgeLoop diff [] = []"
| "routingAgeLoop diff (it # rest) =
     (let it' = it\<lparr>r_timestamp := ucast ((scast (r_timestamp it) :: u_long) - diff)\<rparr>
      in if r_timestamp it' \<le>s 0 then routingAgeLoop diff rest
         else it' # routingAgeLoop diff rest)"

definition updateRoutingTable :: "u_long \<Rightarrow> 'a QuackMeshRouter_scheme \<Rightarrow> 'a QuackMeshRouter_scheme" where
  "updateRoutingTable millis r =
     (if millis - mLastRoutingTableUpdateTs r < mRoutingTableUpdateInterval r then r
      else
        let diff = millis - mLastRoutingTableUpdateTs r
        in r\<lparr>mLastRoutingTableUpdateTs := millis,
             mRoutingTable := routingAgeLoop diff (mRoutingTable r)\<rparr>)"

text \<open>\<open>QuackMeshRouter::getMACAddressForDestination\<close>: the link of the first matching entry.\<close>

fun linkLoop :: "address \<Rightarrow> RoutingEntry list \<Rightarrow> address" where
  "linkLoop destination [] = BROADCAST_ADDRESS"
| "linkLoop destination (it # rest) =
     (if isAddressMatching destination (r_destination it) then r_link it
      else linkLoop destination rest)"

definition QuackMeshRouter_getMACAddressForDestination ::
  "address \<Rightarrow> 'a QuackMeshRouter_scheme \<Rightarrow> address" where
  "QuackMeshRouter_getMACAddressForDestination destination r =
     linkLoop destination (mRoutingTable r)"

definition QuackMeshRouter_update ::
  "u_long \<Rightarrow> int \<Rightarrow> 'a QuackMeshRouter_scheme \<Rightarrow> error + 'a QuackMeshRouter_scheme" where
  "QuackMeshRouter_update millis driverStatus r =
     (case QuackMeshDevice_update forwardMessage millis driverStatus r of
        Inl e \<Rightarrow> Inl e
      | Inr r1 \<Rightarrow> Inr (updateRoutingTable millis r1))"

section \<open>The host loop and the driver's interrupts\<close>

text \<open>
  A node runs by the host calling \<open>update\<close> from its main loop and the two send
  operations from the application, while the driver raises its two interrupts in
  between. \<open>Update millis driverStatus\<close> is one call of \<open>QuackMeshDevice::update\<close> at
  clock \<open>millis\<close>, \<open>DataSentISR\<close> is the driver's send callback, \<open>DataReceivedISR\<close> its
  receive callback, \<open>SendMessage\<close> and \<open>SendConfirmedMessage\<close> are the application's
  calls.
\<close>

datatype Step =
    Update u_long int
  | DataSentISR int
  | DataReceivedISR address "uint8_t list" uint8_t
  | SendMessage "uint8_t list" nat address
  | SendConfirmedMessage "uint8_t list" nat address

fun step ::
  "(Message \<Rightarrow> 'a QuackMeshDevice_scheme \<Rightarrow> error + 'a QuackMeshDevice_scheme) \<Rightarrow> Step
     \<Rightarrow> 'a QuackMeshDevice_scheme \<Rightarrow> error + 'a QuackMeshDevice_scheme" where
  "step handleForeign (Update millis driverStatus) d =
     QuackMeshDevice_update handleForeign millis driverStatus d"
| "step handleForeign (DataSentISR status) d =
     Inr (d\<lparr>mClient := processDataSent status (mClient d)\<rparr>)"
| "step handleForeign (DataReceivedISR mac dat len) d =
     (case onDataReceived mac dat len (mClient d) of
        Inl e \<Rightarrow> Inl e
      | Inr client \<Rightarrow> Inr (d\<lparr>mClient := client\<rparr>))"
| "step handleForeign (SendMessage dat dataLength destination) d =
     sendMessage dat dataLength destination d"
| "step handleForeign (SendConfirmedMessage dat dataLength destination) d =
     sendConfirmedMessage dat dataLength destination d"

fun run ::
  "(Message \<Rightarrow> 'a QuackMeshDevice_scheme \<Rightarrow> error + 'a QuackMeshDevice_scheme) \<Rightarrow> Step list
     \<Rightarrow> 'a QuackMeshDevice_scheme \<Rightarrow> error + 'a QuackMeshDevice_scheme" where
  "run handleForeign [] d = Inr d"
| "run handleForeign (s # ss) d =
     (case step handleForeign s d of
        Inl e \<Rightarrow> Inl e
      | Inr d' \<Rightarrow> run handleForeign ss d')"

text \<open>
  The link adapter on its own: the calls of its owner (\<open>send\<close>, \<open>update\<close>) and the
  driver's send callback, as a list of steps. The run returns what the \<open>send\<close> calls
  returned and the callback invocations made, in order.
\<close>

datatype ClientStep =
    ClientSend address "uint8_t list" int int int
  | ClientUpdate u_long int
  | ClientDataSentISR int

fun clientRun ::
  "ClientStep list \<Rightarrow> ESPNowClient \<Rightarrow> error + int list \<times> ClientEvent list \<times> ESPNowClient" where
  "clientRun [] c = Inr ([], [], c)"
| "clientRun (ClientSend macAddress dat dataLength maxSendTries channel # ss) c =
     (case ESPNowClient_send macAddress dat dataLength maxSendTries channel c of
        Inl e \<Rightarrow> Inl e
      | Inr (sent, c1) \<Rightarrow>
          (case clientRun ss c1 of
             Inl e \<Rightarrow> Inl e
           | Inr (rs, evs, c2) \<Rightarrow> Inr (sent # rs, evs, c2)))"
| "clientRun (ClientUpdate time driverStatus # ss) c =
     (case ESPNowClient_update time driverStatus c of
        Inl e \<Rightarrow> Inl e
      | Inr (evs1, c1) \<Rightarrow>
          (case clientRun ss c1 of
             Inl e \<Rightarrow> Inl e
           | Inr (rs, evs, c2) \<Rightarrow> Inr (rs, evs1 @ evs, c2)))"
| "clientRun (ClientDataSentISR status # ss) c = clientRun ss (processDataSent status c)"

section \<open>Quantities of the proofs\<close>

text \<open>
  \<open>sentStatuses\<close> are the statuses passed to the sent-callback among the callback
  invocations of the link adapter.
\<close>

fun sentStatuses :: "ClientEvent list \<Rightarrow> ESPNowSentStatus list" where
  "sentStatuses [] = []"
| "sentStatuses (SentStatus status # evs) = status # sentStatuses evs"
| "sentStatuses (DataReceived rd # evs) = sentStatuses evs"

text \<open>
  The accounting of Confirmed sends: \<open>unsentConfirmed\<close> counts the Confirmed frames of
  the queue that \<open>processNextMessage\<close> has not handed to the link adapter yet (the head
  of the queue is in flight while \<open>mMessageSendingInProgress\<close> is set);
  \<open>confirmationBudget\<close> adds the PendingConfirmations and the status callbacks made so
  far; \<open>confirmedSends\<close> counts the calls of \<open>sendConfirmedMessage\<close> in a run.
  \<open>stagedForBroadcast\<close> says that the frame staged in the link adapter, if any, has the
  broadcast address as its link destination.
\<close>

fun confirmedFrames :: "EnqueuedMessage list \<Rightarrow> nat" where
  "confirmedFrames [] = 0"
| "confirmedFrames (q # qs) = (if q_type q = Confirmed then 1 else 0) + confirmedFrames qs"

definition unsentConfirmed :: "'a QuackMeshDevice_scheme \<Rightarrow> nat" where
  "unsentConfirmed d =
     confirmedFrames (if mMessageSendingInProgress d then tl (mMessageQueue d)
                      else mMessageQueue d)"

definition confirmationBudget :: "'a QuackMeshDevice_scheme \<Rightarrow> nat" where
  "confirmationBudget d =
     length (statusCalls d) + length (mMessagesLeftToConfirm d) + unsentConfirmed d"

fun confirmedSends :: "Step list \<Rightarrow> nat" where
  "confirmedSends [] = 0"
| "confirmedSends (SendConfirmedMessage dat dataLength destination # ss) =
     Suc (confirmedSends ss)"
| "confirmedSends (s # ss) = confirmedSends ss"

definition stagedForBroadcast :: "ESPNowClient \<Rightarrow> bool" where
  "stagedForBroadcast c =
     (case mNextDataToSend c of
        None \<Rightarrow> True
      | Some sd \<Rightarrow> isAddressMatching (sd_destAddress sd) BROADCAST_ADDRESS)"

section \<open>Concrete nodes and frames\<close>

text \<open>
  Two nodes \<open>AA:00:00:00:00:01\<close> and \<open>BB:00:00:00:00:02\<close>. \<open>senderA\<close> has a status
  callback, \<open>receiverB\<close> a message callback; both have run \<open>begin\<close> at clock 0.
  \<open>confirmedFrame\<close> is the frame that \<open>sendConfirmedMessage\<close> of the payload \<open>DE AD\<close>
  to \<open>nodeB\<close> builds on \<open>senderA\<close>, \<open>ackFrame\<close> the acknowledgement \<open>receiverB\<close> builds
  for it, \<open>reservedFrame\<close> a frame of the reserved type 2 and \<open>zeroHopFrame\<close> a frame
  with hop count 0. \<open>senderPending\<close> is \<open>senderA\<close> once the link adapter has accepted its
  Confirmed frame for \<open>nodeB\<close>, \<open>senderBroadcastPending\<close> the same for a Confirmed frame
  for the broadcast address.
\<close>

definition nodeA :: address where
  "nodeA = [0xAA, 0, 0, 0, 0, 1]"

definition nodeB :: address where
  "nodeB = [0xBB, 0, 0, 0, 0, 2]"

definition senderA :: QuackMeshDevice where
  "senderA = QuackMeshDevice_begin 0 ((QuackMeshDevice_init nodeA)\<lparr>mSentStatusCallback := True\<rparr>)"

definition receiverB :: QuackMeshDevice where
  "receiverB = QuackMeshDevice_begin 0 ((QuackMeshDevice_init nodeB)\<lparr>mOnMessageCallback := True\<rparr>)"

definition confirmedFrame :: Message where
  "confirmedFrame =
     \<lparr> m_networkID = [0, 0], m_type = 1, m_id = 0, m_hopCount = 3, m_srcAddress = nodeA,
       m_destAddress = nodeB, m_len = 2, m_data = [0xDE, 0xAD] @ replicate 230 0 \<rparr>"

definition ackFrame :: Message where
  "ackFrame =
     \<lparr> m_networkID = [0, 0], m_type = 3, m_id = 0, m_hopCount = 3, m_srcAddress = nodeB,
       m_destAddress = nodeA, m_len = 0, m_data = replicate 232 0 \<rparr>"

definition reservedFrame :: Message where
  "reservedFrame =
     \<lparr> m_networkID = [0, 0], m_type = 2, m_id = 0, m_hopCount = 3, m_srcAddress = nodeA,
       m_destAddress = nodeB, m_len = 0, m_data = replicate 232 0 \<rparr>"

definition zeroHopFrame :: Message where
  "zeroHopFrame =
     \<lparr> m_networkID = [0, 0], m_type = 0, m_id = 7, m_hopCount = 0, m_srcAddress = nodeA,
       m_destAddress = nodeB, m_len = 0, m_data = replicate 232 0 \<rparr>"

definition senderPending :: QuackMeshDevice where
  "senderPending =
     (case run handleForeignMessage [SendConfirmedMessage [0xDE, 0xAD] 2 nodeB, Update 0 0]
             senderA of
        Inl e \<Rightarrow> senderA
      | Inr d \<Rightarrow> d)"

definition senderBroadcastPending :: QuackMeshDevice where
  "senderBroadcastPending =
     (case run handleForeignMessage
             [SendConfirmedMessage [0xDE, 0xAD] 2 BROADCAST_ADDRESS, Update 0 0] senderA of
        Inl e \<Rightarrow> senderA
      | Inr d \<Rightarrow> d)"

definition linkClient :: ESPNowClient where
  "linkClient = (ESPNowClient_init nodeA)\<lparr>mOnDataSentCallback := True\<rparr>"

definition failedClient :: ESPNowClient where
  "failedClient =
     linkClient\<lparr>DATA_SENT_UPDATE_MUTEX := True, LAST_SENT_STATUS := Fail,
       mNextDataToSend := Some \<lparr> sd_destAddress = nodeB, sd_data = replicate 250 0,
                                  sd_dataLength = 0, sd_maxTriesLeft = 1, sd_channel = 0 \<rparr>\<rparr>"

definition routerC :: QuackMeshRouter where
  "routerC = QuackMeshRouter_init [0xCC, 0, 0, 0, 0, 3]"

section \<open>Auxiliary facts\<close>

lemma isAddressMatching_take:
  "isAddressMatching (take 6 a) b = isAddressMatching a b"
  "isAddressMatching a (take 6 b) = isAddressMatching a b"
  by (simp_all add: isAddressMatching_def)

lemma isAddressMatching_refl: "isAddressMatching a a"
  by (simp add: isAddressMatching_def)

lemma seenLoop_append: "seenLoop ty m (xs @ ys) = (seenLoop ty m xs \<or> seenLoop ty m ys)"
  by (induction xs) auto

lemma isMessageAlreadySeen_cong:
  "mSeenMessages d' = mSeenMessages d \<Longrightarrow> isMessageAlreadySeen m d' = isMessageAlreadySeen m d"
  by (simp add: isMessageAlreadySeen_def)

lemma rememberMessage_fields:
  "mMessageQueue (rememberMessage m d) = mMessageQueue d"
  "mMessagesLeftToConfirm (rememberMessage m d) = mMessagesLeftToConfirm d"
  "statusCalls (rememberMessage m d) = statusCalls d"
  "messageCalls (rememberMessage m d) = messageCalls d"
  "mOnMessageCallback (rememberMessage m d) = mOnMessageCallback d"
  "mSentStatusCallback (rememberMessage m d) = mSentStatusCallback d"
  "mClient (rememberMessage m d) = mClient d"
  by (simp_all add: rememberMessage_def Let_def)

text \<open>A frame just remembered is reported as seen, as long as the seen-set TTL is not zero.\<close>

lemma rememberMessage_seen:
  assumes "\<not> isMessageAlreadySeen m d" and "0 < mSeenMessagesCleanupTimeout d"
  shows "isMessageAlreadySeen m (rememberMessage m d)"
  using assms
  by (simp add: rememberMessage_def isMessageAlreadySeen_def Let_def seenLoop_append
      isAddressMatching_take isAddressMatching_refl)

lemma handleOwnMessage_seen: "isMessageAlreadySeen m d \<Longrightarrow> handleOwnMessage m d = Inr d"
  by (simp add: handleOwnMessage_def)

text \<open>The seen-set stays within its cap: \<open>rememberMessage\<close> evicts the front entry when full.\<close>

lemma rememberMessage_bounded:
  assumes "length (mSeenMessages d) \<le> mMaxSeenMessagesQueueSize d"
    and "0 < mMaxSeenMessagesQueueSize d"
  shows "length (mSeenMessages (rememberMessage m d)) \<le> mMaxSeenMessagesQueueSize d"
  using assms by (auto simp: rememberMessage_def Let_def)

text \<open>
  The cleanup loop on unsigned timestamps: an entry is dropped exactly when its timestamp
  equals the elapsed time; every other entry is kept with the wrapped difference.
\<close>

lemma seenCleanupLoop_eq:
  "seenCleanupLoop diff xs =
     map (\<lambda>it. it\<lparr>s_timestamp := s_timestamp it - diff\<rparr>)
       (filter (\<lambda>it. s_timestamp it \<noteq> diff) xs)"
  by (induction xs) (simp_all add: Let_def)

lemma timeoutLoop_length: "length (fst (timeoutLoop diff cb xs)) \<le> length xs"
  by (induction xs) (auto simp: Let_def split: prod.splits)

text \<open>The timeout loop makes one \<open>Fail\<close> callback for each entry it erases, and no other.\<close>

lemma timeoutLoop_calls:
  "snd (timeoutLoop diff cb xs) =
     replicate (if cb then length xs - length (fst (timeoutLoop diff cb xs)) else 0) Fail"
proof (induction xs)
  case Nil
  then show ?case by simp
next
  case (Cons it rest)
  have le: "length (fst (timeoutLoop diff cb rest)) \<le> length rest"
    by (rule timeoutLoop_length)
  show ?case
    using Cons le by (auto simp: Let_def Suc_diff_le split: prod.splits)
qed

lemma eraseConfirmed_length:
  "eraseConfirmed ident addr xs = Some ys \<Longrightarrow> length xs = Suc (length ys)"
  by (induction xs arbitrary: ys) (auto split: if_splits)

text \<open>
  The acknowledgement path and the timeout path pay for every status callback with a
  PendingConfirmation: callbacks made plus entries pending never grows.
\<close>

lemma processReceivedAcknowledgement_budget:
  "length (statusCalls (processReceivedAcknowledgement m d))
     + length (mMessagesLeftToConfirm (processReceivedAcknowledgement m d))
   \<le> length (statusCalls d) + length (mMessagesLeftToConfirm d)"
  by (auto simp: processReceivedAcknowledgement_def dest: eraseConfirmed_length
      split: option.splits)

lemma checkForConfirmationTimeout_budget:
  "length (statusCalls (checkForConfirmationTimeout millis d))
     + length (mMessagesLeftToConfirm (checkForConfirmationTimeout millis d))
   \<le> length (statusCalls d) + length (mMessagesLeftToConfirm d)"
proof -
  let ?loop = "timeoutLoop (millis - mLastTimeoutCheckTs d) (mSentStatusCallback d)
                 (mMessagesLeftToConfirm d)"
  have "length (snd ?loop) + length (fst ?loop) \<le> length (mMessagesLeftToConfirm d)"
    using timeoutLoop_length [of "millis - mLastTimeoutCheckTs d" "mSentStatusCallback d"
        "mMessagesLeftToConfirm d"]
    by (cases "mSentStatusCallback d") (simp_all add: timeoutLoop_calls)
  then show ?thesis
    by (cases ?loop) (simp add: checkForConfirmationTimeout_def)
qed

lemma routingLoop_length:
  "routingLoop destination link hops timeout table oldestEntry i rest = (Some table', n)
     \<Longrightarrow> length table' = length table"
  by (induction rest arbitrary: oldestEntry i) (auto split: if_splits)

text \<open>\<open>addOrUpdateRoutingInfo\<close> never removes an entry.\<close>

lemma addOrUpdateRoutingInfo_length:
  "length (mRoutingTable r) \<le> length (mRoutingTable (addOrUpdateRoutingInfo destination link hops r))"
proof (cases "routingLoop destination link hops (mRoutingTableUpdateTimeout r) (mRoutingTable r)
                0 0 (mRoutingTable r)")
  case (Pair res n)
  then show ?thesis
    by (cases res) (auto simp: addOrUpdateRoutingInfo_def Let_def dest: routingLoop_length)
qed

text \<open>For a received hop count other than 0 the forwarded hop count is one less.\<close>

lemma hopCount_decrement: "(x :: uint8_t) \<noteq> 0 \<Longrightarrow> x - 1 < x"
  by (simp add: word_less_nat_alt unat_minus_one unat_gt_0)

lemma forwardMessage_queue:
  assumes "forwardMessage m r = Inr r'"
  shows "mMessageQueue r' = mMessageQueue r
   \<or> (m_hopCount m \<noteq> 1 \<and>
       (\<exists>fm. Message_ctor [0, 0] (m_type m) (m_id m) (m_hopCount m - 1)
                (m_srcAddress m) (m_destAddress m) (m_len m) (m_data m) = Inr fm \<and>
             mMessageQueue r' =
               mMessageQueue r @ [\<lparr> q_type = Forwarded, q_channel = 0, q_message = fm \<rparr>]))"
  using assms
  by (auto simp: forwardMessage_def Let_def rememberMessage_fields split: if_splits sum.splits)

lemma update_received_fields:
  "DATA_SENT_UPDATE_MUTEX (update_received c) = DATA_SENT_UPDATE_MUTEX c"
  "mNextDataToSend (update_received c) = mNextDataToSend c"
  "mOnDataSentCallback (update_received c) = mOnDataSentCallback c"
  "LAST_SENT_STATUS (update_received c) = LAST_SENT_STATUS c"
  "WAITING_FOR_DATA_SENT_MUTEX (update_received c) = WAITING_FOR_DATA_SENT_MUTEX c"
  by (simp_all add: update_received_def)

lemma processMessage_events: "SentStatus s \<notin> set (fst (processMessage c))"
  by (simp add: processMessage_def split: list.splits)

lemma update_process_events: "SentStatus s \<notin> set (fst (update_process time c))"
  by (simp add: update_process_def processMessage_events)

lemma update_sentStatus_terminal:
  assumes "DATA_SENT_UPDATE_MUTEX c" and "mNextDataToSend c = Some sd" and "mOnDataSentCallback c"
    and "LAST_SENT_STATUS c = Fail \<or> LAST_SENT_STATUS c = SendSuccess
         \<or> (LAST_SENT_STATUS c = PartialFail \<and> sd_maxTriesLeft sd = 0)"
  shows "\<exists>c'. update_sentStatus c =
           Inr ([SentStatus (if isAddressMatching (sd_destAddress sd) BROADCAST_ADDRESS
                             then SendBroadcast
                             else if LAST_SENT_STATUS c = SendSuccess then SendSuccess else Fail)],
                c')"
proof -
  consider (fail) "LAST_SENT_STATUS c = Fail" | (ok) "LAST_SENT_STATUS c = SendSuccess"
    | (partial) "LAST_SENT_STATUS c = PartialFail" "sd_maxTriesLeft sd = 0"
    using assms(4) by blast
  then show ?thesis
  proof cases
    case fail
    then show ?thesis using assms(1-3)
      by (simp add: update_sentStatus_def update_partialFail_def update_terminal_def Let_def)
  next
    case ok
    then show ?thesis using assms(1-3)
      by (simp add: update_sentStatus_def update_partialFail_def update_terminal_def Let_def)
  next
    case partial
    then show ?thesis using assms(1-3)
      by (simp add: update_sentStatus_def update_partialFail_def update_terminal_def Let_def)
  qed
qed

text \<open>
  The loop of \<open>addOrUpdateRoutingInfo\<close> returns early only by lowering the hop count of
  one entry, and runs to the end when no matching entry has a larger hop count.
\<close>

lemma routingLoop_Some:
  assumes "rest = drop i table"
    and "routingLoop destination link hops timeout table oldestEntry i rest = (Some table', n)"
  shows "\<exists>k<length table. hops < r_hops (table ! k)
           \<and> table' = table[k := (table ! k)\<lparr>r_hops := hops, r_timestamp := ucast timeout,
                                              r_link := take 6 link\<rparr>]"
  using assms
proof (induction rest arbitrary: i oldestEntry)
  case Nil
  then show ?case by simp
next
  case (Cons it rest)
  from Cons.prems(1) have d: "drop i table = it # rest"
    by simp
  have i: "i < length table"
    using d by (cases "i < length table") simp_all
  have it: "it = table ! i"
    using nth_via_drop [OF d] by simp
  have "drop (Suc i) table = tl (drop i table)"
    by (simp add: drop_Suc tl_drop)
  then have rest: "rest = drop (Suc i) table"
    using d by simp
  show ?case
  proof (cases "isAddressMatching (r_destination it) destination \<and> hops < r_hops it")
    case True
    then show ?thesis using Cons.prems(2) i it by auto
  next
    case False
    then have "\<exists>oe. routingLoop destination link hops timeout table oe (Suc i) rest = (Some table', n)"
      using Cons.prems(2) by (auto split: if_splits)
    then show ?thesis using Cons.IH [OF rest] by blast
  qed
qed

lemma routingLoop_None:
  assumes "\<forall>e\<in>set rest. isAddressMatching (r_destination e) destination \<longrightarrow> r_hops e \<le> hops"
  shows "fst (routingLoop destination link hops timeout table oldestEntry i rest) = None"
  using assms
  by (induction rest arbitrary: i oldestEntry) (auto simp: not_less)

text \<open>
  \<open>processNextMessage\<close> stages every frame with the broadcast MAC address as its link
  destination, whatever the destination of the message is.
\<close>

lemma processNextMessage_link_destination:
  assumes "processNextMessage d = Inr d'"
  shows "mNextDataToSend (mClient d') = mNextDataToSend (mClient d)
   \<or> map_option sd_destAddress (mNextDataToSend (mClient d')) = Some BROADCAST_ADDRESS"
  using assms
  by (auto simp: processNextMessage_def ESPNowClient_send_def sendingPossible_def
      getMACAddressForDestination_def BROADCAST_ADDRESS_def Let_def
      split: list.splits if_splits)

text \<open>The equations that evaluate the model on the concrete nodes and frames.\<close>

lemmas node_simps =
  nodeA_def nodeB_def senderA_def receiverB_def confirmedFrame_def ackFrame_def
  reservedFrame_def zeroHopFrame_def senderPending_def senderBroadcastPending_def
  linkClient_def failedClient_def routerC_def

lemmas device_simps =
  QuackMeshDevice_begin_def QuackMeshDevice_init_def QuackMeshRouter_init_def
  ESPNowClient_init_def sendMessage_def sendConfirmedMessage_def enqueueNewMessage_def
  getNewMessageId_def
  getMACAddress_def Message_ctor_def Message_bytes_def BROADCAST_ADDRESS_def
  isAddressMatching_def processNextMessage_def sendingPossible_def ESPNowClient_send_def
  getMACAddressForDestination_def checkForConfirmationTimeout_def onMessageSent_def
  handleOwnMessage_def isMessageAlreadySeen_def rememberMessage_def sendAcknowledgement_def
  processReceivedAcknowledgement_def updateSeenMessages_def handleForeignMessage_def
  addOrUpdateRoutingInfo_def forwardMessage_def Let_def word_sle_eq word_gt_0

lemmas client_simps =
  QuackMeshDevice_update_def ESPNowClient_update_def update_received_def
  update_sentStatus_def update_partialFail_def update_terminal_def update_emit_def
  update_process_def processMessage_def sendNow_def processDataSent_def

lemma routingLoop_first:
  assumes "rest = drop i table" and "i \<le> k" and "k < length table"
    and "isAddressMatching (r_destination (table ! k)) destination"
    and "hops < r_hops (table ! k)"
    and "\<forall>j<k. i \<le> j \<longrightarrow> isAddressMatching (r_destination (table ! j)) destination \<longrightarrow>
           r_hops (table ! j) \<le> hops"
  shows "fst (routingLoop destination link hops timeout table oldestEntry i rest) =
           Some (table[k := (table ! k)\<lparr>r_hops := hops, r_timestamp := ucast timeout,
                                          r_link := take 6 link\<rparr>])"
  using assms
proof (induction rest arbitrary: i oldestEntry)
  case Nil
  then show ?case by simp
next
  case (Cons it rest)
  from Cons.prems(1) have d: "drop i table = it # rest"
    by simp
  have it: "it = table ! i"
    using nth_via_drop [OF d] by simp
  have "drop (Suc i) table = tl (drop i table)"
    by (simp add: drop_Suc tl_drop)
  then have rest: "rest = drop (Suc i) table"
    using d by simp
  show ?case
  proof (cases "i = k")
    case True
    then show ?thesis using Cons.prems(4,5) it by simp
  next
    case False
    then have lt: "i < k" using Cons.prems(2) by simp
    then have skip: "\<not> (isAddressMatching (r_destination it) destination \<and> hops < r_hops it)"
      using Cons.prems(6) it by (auto simp: not_less)
    have IH: "\<And>oe. fst (routingLoop destination link hops timeout table oe (Suc i) rest) =
        Some (table[k := (table ! k)\<lparr>r_hops := hops, r_timestamp := ucast timeout,
                                       r_link := take 6 link\<rparr>])"
      using Cons.IH [OF rest _ Cons.prems(3,4,5)] lt Cons.prems(6) by simp
    show ?thesis using skip IH by auto
  qed
qed






text \<open>
  The reconciliation step of \<open>update\<close> for a staged frame \<open>sd\<close>: a status is terminal
  when it is \<open>Fail\<close>, \<open>SendSuccess\<close>, or \<open>PartialFail\<close> with no tries left. Only a
  terminal status that is pending reaches the sent-callback, drops the staged frame and
  clears \<open>WAITING_FOR_DATA_SENT_MUTEX\<close>.
\<close>

lemma update_sentStatus_staged:
  assumes "mNextDataToSend c = Some sd"
    and "terminal = (DATA_SENT_UPDATE_MUTEX c
           \<and> (LAST_SENT_STATUS c = Fail \<or> LAST_SENT_STATUS c = SendSuccess
                \<or> (LAST_SENT_STATUS c = PartialFail \<and> sd_maxTriesLeft sd = 0)))"
    and "X = (if isAddressMatching (sd_destAddress sd) BROADCAST_ADDRESS then SendBroadcast
              else if LAST_SENT_STATUS c = SendSuccess then SendSuccess else Fail)"
  shows "\<exists>c1. update_sentStatus c =
           Inr (if terminal \<and> mOnDataSentCallback c then [SentStatus X] else [], c1)
         \<and> mNextDataToSend c1 = (if terminal then None else Some sd)
         \<and> WAITING_FOR_DATA_SENT_MUTEX c1 =
             (if terminal then False else WAITING_FOR_DATA_SENT_MUTEX c)"
proof (cases "DATA_SENT_UPDATE_MUTEX c")
  case False
  then show ?thesis using assms by (simp add: update_sentStatus_def)
next
  case True
  show ?thesis
  proof (cases "LAST_SENT_STATUS c")
    case Undetermined
    then show ?thesis using True assms
      by (simp add: update_sentStatus_def update_partialFail_def update_terminal_def)
  next
    case SendSuccess
    then show ?thesis using True assms
      by (simp add: update_sentStatus_def update_partialFail_def update_terminal_def Let_def)
  next
    case SendBroadcast
    then show ?thesis using True assms
      by (simp add: update_sentStatus_def update_partialFail_def update_terminal_def)
  next
    case PartialFail
    then show ?thesis using True assms
      by (cases "sd_maxTriesLeft sd = 0")
        (simp_all add: update_sentStatus_def update_partialFail_def update_terminal_def Let_def)
  next
    case Fail
    then show ?thesis using True assms
      by (simp add: update_sentStatus_def update_partialFail_def update_terminal_def Let_def)
  qed
qed

lemma sentStatuses_append: "sentStatuses (xs @ ys) = sentStatuses xs @ sentStatuses ys"
  by (induction xs rule: sentStatuses.induct) simp_all

lemma update_process_statuses: "sentStatuses (fst (update_process time c)) = []"
  by (simp add: update_process_def processMessage_def split: list.splits)

lemma update_process_fields:
  "mNextDataToSend (snd (update_process time c)) = mNextDataToSend c"
  "WAITING_FOR_DATA_SENT_MUTEX (snd (update_process time c)) = WAITING_FOR_DATA_SENT_MUTEX c"
  "DATA_SENT_UPDATE_MUTEX (snd (update_process time c)) = DATA_SENT_UPDATE_MUTEX c"
  by (simp_all add: update_process_def processMessage_def split: list.splits)

lemma update_emit_staged:
  "map_option sd_destAddress (mNextDataToSend (update_emit time driverStatus c))
     = map_option sd_destAddress (mNextDataToSend c)"
  by (simp add: update_emit_def sendNow_def Let_def split: option.splits)

lemma update_emit_idle:
  "mNextDataToSend c = None \<Longrightarrow> update_emit time driverStatus c = c"
  by (simp add: update_emit_def)

lemma update_emit_waiting:
  "WAITING_FOR_DATA_SENT_MUTEX c \<Longrightarrow> update_emit time driverStatus c = c"
  by (simp add: update_emit_def split: option.splits)

text \<open>
  \<open>send\<close> on an adapter that is not waiting for a sent-status accepts the frame and
  replaces whatever is staged; \<open>sendingPossible\<close> is true there. While the adapter is
  waiting and no status update is pending, \<open>update\<close> changes neither: it stays waiting
  until the driver's send callback runs.
\<close>

lemma send_replaces_staged_frame:
  assumes "\<not> WAITING_FOR_DATA_SENT_MUTEX c" and "0 \<le> dataLength" and "dataLength \<le> 250"
    and "dataLength \<le> int (length dat)"
  shows "ESPNowClient_send macAddress dat dataLength maxSendTries channel c =
           Inr (0, c\<lparr>mNextDataToSend := Some
                  \<lparr> sd_destAddress = take 6 macAddress,
                    sd_data = take (nat dataLength) dat @ replicate (250 - nat dataLength) 0,
                    sd_dataLength = word_of_int dataLength,
                    sd_maxTriesLeft = word_of_int maxSendTries,
                    sd_channel = channel \<rparr>\<rparr>)"
    and "sendingPossible c"
  using assms by (simp_all add: ESPNowClient_send_def sendingPossible_def Let_def)

lemma send_busy_iff_waiting:
  "(ESPNowClient_send macAddress dat dataLength maxSendTries channel c = Inr (- 1, c))
     = WAITING_FOR_DATA_SENT_MUTEX c"
  by (simp add: ESPNowClient_send_def Let_def)

lemma update_keeps_waiting:
  assumes "WAITING_FOR_DATA_SENT_MUTEX c" and "\<not> DATA_SENT_UPDATE_MUTEX c"
  shows "\<exists>c'. ESPNowClient_update time driverStatus c = Inr ([], c')
           \<and> WAITING_FOR_DATA_SENT_MUTEX c' \<and> \<not> DATA_SENT_UPDATE_MUTEX c'
           \<and> mNextDataToSend c' = mNextDataToSend c"
  using assms
  by (simp add: ESPNowClient_update_def update_sentStatus_def update_received_fields
      update_emit_waiting update_process_def update_received_def)

text \<open>
  The accounting of Confirmed sends, operation by operation. The budget of a device
  (status callbacks made, PendingConfirmations, Confirmed frames not yet handed to the
  link adapter) does not grow, except by one for each call of \<open>sendConfirmedMessage\<close>;
  \<open>onMessageSent\<close> keeps it for every status other than \<open>Fail\<close>.
\<close>

lemma confirmedFrames_append:
  "confirmedFrames (xs @ ys) = confirmedFrames xs + confirmedFrames ys"
  by (induction xs) simp_all

lemma confirmedFrames_tl: "confirmedFrames (tl xs) \<le> confirmedFrames xs"
  by (cases xs) simp_all

lemma unsentConfirmed_enqueue:
  "unsentConfirmed (d\<lparr>mMessageQueue := mMessageQueue d @ [q]\<rparr>)
     \<le> unsentConfirmed d + (if q_type q = Confirmed then 1 else 0)"
  by (cases "mMessageQueue d") (simp_all add: unsentConfirmed_def confirmedFrames_append)

lemma confirmationBudget_cong:
  assumes "statusCalls d' = statusCalls d"
    and "mMessagesLeftToConfirm d' = mMessagesLeftToConfirm d"
    and "mMessageQueue d' = mMessageQueue d"
    and "mMessageSendingInProgress d' = mMessageSendingInProgress d"
  shows "confirmationBudget d' = confirmationBudget d"
  using assms by (simp add: confirmationBudget_def unsentConfirmed_def)

lemma rememberMessage_budget:
  "confirmationBudget (rememberMessage m d) = confirmationBudget d"
  by (rule confirmationBudget_cong) (simp_all add: rememberMessage_def Let_def)

lemma onMessageSent_budget:
  assumes "status \<noteq> Fail" and "onMessageSent status d = Inr d'"
  shows "confirmationBudget d' \<le> confirmationBudget d \<and> mClient d' = mClient d"
proof (cases "mMessageQueue d")
  case Nil
  then show ?thesis using assms(2) by (simp add: onMessageSent_def)
next
  case (Cons front rest)
  then have "d' = d\<lparr>mMessageSendingInProgress := False, mMessageQueue := rest\<rparr>"
    using assms by (auto simp: onMessageSent_def)
  then show ?thesis
    using Cons by (simp add: confirmationBudget_def unsentConfirmed_def)
qed

lemma sendAcknowledgement_budget:
  assumes "sendAcknowledgement m d = Inr d'"
  shows "confirmationBudget d' \<le> confirmationBudget d \<and> mClient d' = mClient d
         \<and> mOnMessageCallback d' = mOnMessageCallback d"
proof -
  obtain ack where "d' = d\<lparr>mMessageQueue := mMessageQueue d @
      [\<lparr> q_type = Acknowledgement, q_channel = 0, q_message = ack \<rparr>]\<rparr>"
    using assms by (auto simp: sendAcknowledgement_def Let_def split: sum.splits)
  then show ?thesis
    using unsentConfirmed_enqueue
      [of d "\<lparr> q_type = Acknowledgement, q_channel = 0, q_message = ack \<rparr>"]
    by (simp add: confirmationBudget_def)
qed

lemma processReceivedAcknowledgement_total_budget:
  "confirmationBudget (processReceivedAcknowledgement m d) \<le> confirmationBudget d
   \<and> mClient (processReceivedAcknowledgement m d) = mClient d"
  by (auto simp: processReceivedAcknowledgement_def confirmationBudget_def unsentConfirmed_def
      dest: eraseConfirmed_length split: option.splits)

lemma messageCalls_budget:
  "confirmationBudget (d\<lparr>messageCalls := x\<rparr>) = confirmationBudget d"
  by (rule confirmationBudget_cong) simp_all

lemma handleOwnMessage_budget:
  assumes "handleOwnMessage m d = Inr d'"
  shows "confirmationBudget d' \<le> confirmationBudget d \<and> mClient d' = mClient d"
proof (cases "isMessageAlreadySeen m d")
  case True
  then show ?thesis using assms by (simp add: handleOwnMessage_def)
next
  case False
  let ?d1 = "rememberMessage m d"
  have d1: "confirmationBudget ?d1 = confirmationBudget d" "mClient ?d1 = mClient d"
    by (simp_all add: rememberMessage_budget rememberMessage_fields)
  consider (unconfirmed) "m_type m = 0" | (confirmed) "m_type m \<noteq> 0" "m_type m = 1"
    | (ack) "m_type m \<noteq> 0" "m_type m \<noteq> 1" "m_type m = 3"
    | (other) "m_type m \<noteq> 0" "m_type m \<noteq> 1" "m_type m \<noteq> 3"
    by blast
  then show ?thesis
  proof cases
    case unconfirmed
    then have "d' = ?d1 \<or> (\<exists>x. d' = ?d1\<lparr>messageCalls := x\<rparr>)"
      using assms False by (auto simp: handleOwnMessage_def Let_def split: if_splits)
    then show ?thesis using d1 by (auto simp: messageCalls_budget)
  next
    case confirmed
    then obtain d2 where d2: "sendAcknowledgement m ?d1 = Inr d2"
      and d': "d' = d2 \<or> (\<exists>x. d' = d2\<lparr>messageCalls := x\<rparr>)"
      using assms False
      by (auto simp: handleOwnMessage_def Let_def split: if_splits sum.splits)
    show ?thesis
      using sendAcknowledgement_budget [OF d2] d' d1 by (auto simp: messageCalls_budget)
  next
    case ack
    then have "d' = processReceivedAcknowledgement m ?d1"
      using assms False by (simp add: handleOwnMessage_def Let_def)
    then show ?thesis
      using processReceivedAcknowledgement_total_budget [of m ?d1] d1 by simp
  next
    case other
    then have "\<exists>x. d' = ?d1\<lparr>messageCalls := x\<rparr>"
      using assms False by (auto simp: handleOwnMessage_def Let_def split: if_splits)
    then show ?thesis using d1 by (auto simp: messageCalls_budget)
  qed
qed


lemma forwardMessage_budget:
  assumes "forwardMessage m r = Inr r'"
  shows "confirmationBudget r' \<le> confirmationBudget r \<and> mClient r' = mClient r"
proof -
  let ?r1 = "rememberMessage m r"
  have "r' = r \<or> (\<exists>fm. r' = ?r1\<lparr>mMessageQueue := mMessageQueue ?r1 @
      [\<lparr> q_type = Forwarded, q_channel = 0, q_message = fm \<rparr>]\<rparr>)"
    using assms by (auto simp: forwardMessage_def Let_def split: if_splits sum.splits)
  then show ?thesis
  proof
    assume "r' = r"
    then show ?thesis by simp
  next
    assume "\<exists>fm. r' = ?r1\<lparr>mMessageQueue := mMessageQueue ?r1 @
      [\<lparr> q_type = Forwarded, q_channel = 0, q_message = fm \<rparr>]\<rparr>"
    then obtain fm where r': "r' = ?r1\<lparr>mMessageQueue := mMessageQueue ?r1 @
      [\<lparr> q_type = Forwarded, q_channel = 0, q_message = fm \<rparr>]\<rparr>"
      by blast
    have "confirmationBudget r' \<le> confirmationBudget ?r1"
      using unsentConfirmed_enqueue
        [of ?r1 "\<lparr> q_type = Forwarded, q_channel = 0, q_message = fm \<rparr>"] r'
      by (simp add: confirmationBudget_def)
    then show ?thesis
      using r' by (simp add: rememberMessage_budget rememberMessage_fields)
  qed
qed

lemma onMessageReceived_budget:
  assumes "\<And>m x x'. handleForeign m x = Inr x' \<Longrightarrow>
             confirmationBudget x' \<le> confirmationBudget x \<and> mClient x' = mClient x"
    and "onMessageReceived handleForeign rd d = Inr d'"
  shows "confirmationBudget d' \<le> confirmationBudget d \<and> mClient d' = mClient d"
  using assms handleOwnMessage_budget
  by (auto simp: onMessageReceived_def split: sum.splits if_splits)

lemma dispatchEvents_budget:
  assumes "\<And>m x x'. handleForeign m x = Inr x' \<Longrightarrow>
             confirmationBudget x' \<le> confirmationBudget x \<and> mClient x' = mClient x"
    and "SentStatus Fail \<notin> set evs"
    and "dispatchEvents handleForeign evs d = Inr d'"
  shows "confirmationBudget d' \<le> confirmationBudget d \<and> mClient d' = mClient d"
  using assms(2,3)
proof (induction evs arbitrary: d)
  case Nil
  then show ?case by simp
next
  case (Cons ev evs)
  show ?case
  proof (cases ev)
    case (SentStatus status)
    then have ne: "status \<noteq> Fail" using Cons.prems(1) by auto
    obtain d1 where d1: "onMessageSent status d = Inr d1"
      and rest: "dispatchEvents handleForeign evs d1 = Inr d'"
      using Cons.prems(2) SentStatus by (auto split: sum.splits)
    show ?thesis
      using onMessageSent_budget [OF ne d1] Cons.IH [OF _ rest] Cons.prems(1) by auto
  next
    case (DataReceived rd)
    obtain d1 where d1: "onMessageReceived handleForeign rd d = Inr d1"
      and rest: "dispatchEvents handleForeign evs d1 = Inr d'"
      using Cons.prems(2) DataReceived by (auto split: sum.splits)
    have "confirmationBudget d1 \<le> confirmationBudget d \<and> mClient d1 = mClient d"
      by (rule onMessageReceived_budget [OF _ d1]) (erule assms(1))
    then show ?thesis
      using Cons.IH [OF _ rest] Cons.prems(1) by auto
  qed
qed

lemma updateSeenMessages_budget:
  "confirmationBudget (updateSeenMessages millis d) = confirmationBudget d"
  "mClient (updateSeenMessages millis d) = mClient d"
  by (simp_all add: updateSeenMessages_def Let_def confirmationBudget_def unsentConfirmed_def)

lemma checkForConfirmationTimeout_total_budget:
  "confirmationBudget (checkForConfirmationTimeout millis d) \<le> confirmationBudget d"
  "mClient (checkForConfirmationTimeout millis d) = mClient d"
proof -
  have "unsentConfirmed (checkForConfirmationTimeout millis d) = unsentConfirmed d"
    by (simp add: checkForConfirmationTimeout_def unsentConfirmed_def Let_def split: prod.splits)
  then show "confirmationBudget (checkForConfirmationTimeout millis d) \<le> confirmationBudget d"
    using checkForConfirmationTimeout_budget [of millis d] by (simp add: confirmationBudget_def)
  show "mClient (checkForConfirmationTimeout millis d) = mClient d"
    by (simp add: checkForConfirmationTimeout_def Let_def split: prod.splits)
qed

lemma stagedForBroadcast_cong:
  "map_option sd_destAddress (mNextDataToSend c') = map_option sd_destAddress (mNextDataToSend c)
     \<Longrightarrow> stagedForBroadcast c' = stagedForBroadcast c"
  by (cases "mNextDataToSend c"; cases "mNextDataToSend c'") (auto simp: stagedForBroadcast_def)

lemma processNextMessage_budget:
  assumes "stagedForBroadcast (mClient d)" and "processNextMessage d = Inr d'"
  shows "confirmationBudget d' \<le> confirmationBudget d \<and> stagedForBroadcast (mClient d')"
proof (cases "mMessageSendingInProgress d \<or> mMessageQueue d = []
              \<or> \<not> sendingPossible (mClient d)")
  case True
  then have "d' = d"
    using assms(2) by (auto simp: processNextMessage_def split: list.splits if_splits)
  then show ?thesis using assms(1) by simp
next
  case False
  then obtain nextMessage rest where q: "mMessageQueue d = nextMessage # rest"
    by (cases "mMessageQueue d") auto
  have idle: "\<not> mMessageSendingInProgress d" "\<not> WAITING_FOR_DATA_SENT_MUTEX (mClient d)"
    using False by (simp_all add: sendingPossible_def)
  obtain sd where d': "d' =
      (if q_type nextMessage = Confirmed
       then d\<lparr>mClient := (mClient d)\<lparr>mNextDataToSend := Some sd\<rparr>,
              mMessageSendingInProgress := True,
              mMessagesLeftToConfirm := mMessagesLeftToConfirm d @
                [\<lparr> c_isSent = True, c_timestamp = 1000, c_id = m_id (q_message nextMessage),
                   c_destAddress = take 6 (m_destAddress (q_message nextMessage)) \<rparr>]\<rparr>
       else d\<lparr>mClient := (mClient d)\<lparr>mNextDataToSend := Some sd\<rparr>,
              mMessageSendingInProgress := True\<rparr>)"
    and sd: "sd_destAddress sd = take 6 BROADCAST_ADDRESS"
    using assms(2) q idle
    by (auto simp: processNextMessage_def ESPNowClient_send_def sendingPossible_def Let_def
        getMACAddressForDestination_def split: if_splits)
  have "stagedForBroadcast (mClient d')"
    using d' sd by (simp add: stagedForBroadcast_def isAddressMatching_take isAddressMatching_refl)
  moreover have "confirmationBudget d' \<le> confirmationBudget d"
    using d' q idle by (simp add: confirmationBudget_def unsentConfirmed_def)
  ultimately show ?thesis by simp
qed

lemma update_sentStatus_broadcast:
  assumes "stagedForBroadcast c" and "update_sentStatus c = Inr (evs, c1)"
  shows "SentStatus Fail \<notin> set evs \<and> stagedForBroadcast c1"
proof (cases "mNextDataToSend c")
  case None
  then show ?thesis
    using assms(2)
    by (auto simp: update_sentStatus_def update_partialFail_def update_terminal_def
        stagedForBroadcast_def split: if_splits)
next
  case (Some sd)
  then have b: "isAddressMatching (sd_destAddress sd) BROADCAST_ADDRESS"
    using assms(1) by (simp add: stagedForBroadcast_def)
  show ?thesis
    using update_sentStatus_staged [OF Some refl refl] assms(2) b
    by (auto simp: stagedForBroadcast_def split: if_splits)
qed

lemma ESPNowClient_update_broadcast:
  assumes "stagedForBroadcast c" and "ESPNowClient_update time driverStatus c = Inr (evs, c')"
  shows "SentStatus Fail \<notin> set evs \<and> stagedForBroadcast c'"
proof -
  have r: "stagedForBroadcast (update_received c)"
    using assms(1) stagedForBroadcast_cong [of "update_received c" c]
    by (simp add: update_received_fields)
  obtain evs1 c1 where s: "update_sentStatus (update_received c) = Inr (evs1, c1)"
    using assms(2) by (auto simp: ESPNowClient_update_def split: sum.splits prod.splits)
  let ?c2 = "update_emit time driverStatus c1"
  have evs: "evs = evs1 @ fst (update_process time ?c2)"
    and c': "c' = snd (update_process time ?c2)"
    using assms(2) s by (auto simp: ESPNowClient_update_def split: prod.splits)
  have one: "SentStatus Fail \<notin> set evs1" and c1: "stagedForBroadcast c1"
    using update_sentStatus_broadcast [OF r s] by simp_all
  have "stagedForBroadcast ?c2"
    using c1 stagedForBroadcast_cong [OF update_emit_staged [of time driverStatus c1]] by simp
  then have "stagedForBroadcast c'"
    using c' stagedForBroadcast_cong [of c' ?c2] by (simp add: update_process_fields)
  then show ?thesis
    using one evs processMessage_events update_process_events by simp
qed

text \<open>One call of \<open>QuackMeshDevice::update\<close>, and one step of a run.\<close>

lemma QuackMeshDevice_update_budget:
  assumes "\<And>m x x'. handleForeign m x = Inr x' \<Longrightarrow>
             confirmationBudget x' \<le> confirmationBudget x \<and> mClient x' = mClient x"
    and "stagedForBroadcast (mClient d)"
    and "QuackMeshDevice_update handleForeign millis driverStatus d = Inr d'"
  shows "confirmationBudget d' \<le> confirmationBudget d \<and> stagedForBroadcast (mClient d')"
proof -
  obtain evs client d1
    where u: "ESPNowClient_update millis driverStatus (mClient d) = Inr (evs, client)"
      and e: "dispatchEvents handleForeign evs (d\<lparr>mClient := client\<rparr>) = Inr d1"
      and p: "processNextMessage
                (checkForConfirmationTimeout millis (updateSeenMessages millis d1)) = Inr d'"
    using assms(3) by (auto simp: QuackMeshDevice_update_def split: sum.splits prod.splits)
  have c: "SentStatus Fail \<notin> set evs" "stagedForBroadcast client"
    using ESPNowClient_update_broadcast [OF assms(2) u] by simp_all
  have "confirmationBudget (d\<lparr>mClient := client\<rparr>) = confirmationBudget d"
    by (rule confirmationBudget_cong) simp_all
  moreover have "confirmationBudget d1 \<le> confirmationBudget (d\<lparr>mClient := client\<rparr>)
                 \<and> mClient d1 = mClient (d\<lparr>mClient := client\<rparr>)"
    by (rule dispatchEvents_budget [OF _ c(1) e]) (erule assms(1))
  ultimately have d1: "confirmationBudget d1 \<le> confirmationBudget d" "mClient d1 = client"
    by simp_all
  let ?d2 = "checkForConfirmationTimeout millis (updateSeenMessages millis d1)"
  have d2: "confirmationBudget ?d2 \<le> confirmationBudget d" "mClient ?d2 = client"
    using d1 checkForConfirmationTimeout_total_budget [of millis "updateSeenMessages millis d1"]
    by (simp_all add: updateSeenMessages_budget)
  have "stagedForBroadcast (mClient ?d2)"
    using d2(2) c(2) by simp
  then show ?thesis
    using processNextMessage_budget [OF _ p] d2(1) by auto
qed

lemma enqueueNewMessage_budget:
  assumes "enqueueNewMessage dat dataLength destination confirmed d = Inr d'"
  shows "confirmationBudget d' \<le> confirmationBudget d + (if confirmed then 1 else 0)
         \<and> mClient d' = mClient d"
proof -
  let ?d1 = "d\<lparr>idid := idid d + 1\<rparr>"
  obtain newMessage where d': "d' = ?d1\<lparr>mMessageQueue := mMessageQueue ?d1 @
      [\<lparr> q_type = (if confirmed then Confirmed else Unconfirmed), q_channel = 0,
         q_message = newMessage \<rparr>]\<rparr>"
    using assms
    by (auto simp: enqueueNewMessage_def getNewMessageId_def Let_def split: sum.splits)
  have "confirmationBudget ?d1 = confirmationBudget d"
    by (rule confirmationBudget_cong) simp_all
  then show ?thesis
    using d' unsentConfirmed_enqueue
      [of ?d1 "\<lparr> q_type = (if confirmed then Confirmed else Unconfirmed), q_channel = 0,
                 q_message = newMessage \<rparr>"]
    by (auto simp: confirmationBudget_def)
qed

lemma step_budget:
  assumes "\<And>m x x'. handleForeign m x = Inr x' \<Longrightarrow>
             confirmationBudget x' \<le> confirmationBudget x \<and> mClient x' = mClient x"
    and "stagedForBroadcast (mClient d)"
    and "step handleForeign s d = Inr d'"
  shows "confirmationBudget d' \<le> confirmationBudget d + confirmedSends [s]
         \<and> stagedForBroadcast (mClient d')"
proof (cases s)
  case (Update millis driverStatus)
  then have u: "QuackMeshDevice_update handleForeign millis driverStatus d = Inr d'"
    using assms(3) by simp
  have "confirmationBudget d' \<le> confirmationBudget d \<and> stagedForBroadcast (mClient d')"
    by (rule QuackMeshDevice_update_budget [OF _ assms(2) u]) (erule assms(1))
  then show ?thesis using Update by simp
next
  case (DataSentISR status)
  then have d': "d' = d\<lparr>mClient := processDataSent status (mClient d)\<rparr>"
    using assms(3) by simp
  have "stagedForBroadcast (processDataSent status (mClient d))"
    using assms(2) stagedForBroadcast_cong [of "processDataSent status (mClient d)" "mClient d"]
    by (simp add: processDataSent_def)
  moreover have "confirmationBudget d' = confirmationBudget d"
    unfolding d' by (rule confirmationBudget_cong) simp_all
  ultimately show ?thesis using DataSentISR d' by simp
next
  case (DataReceivedISR mac dat len)
  then obtain client where c: "onDataReceived mac dat len (mClient d) = Inr client"
    and d': "d' = d\<lparr>mClient := client\<rparr>"
    using assms(3) by (auto split: sum.splits)
  have "mNextDataToSend client = mNextDataToSend (mClient d)"
    using c
    by (auto simp: onDataReceived_def processReceivedData_def split: if_splits sum.splits)
  then have "stagedForBroadcast client"
    using assms(2) stagedForBroadcast_cong [of client "mClient d"] by simp
  moreover have "confirmationBudget d' = confirmationBudget d"
    unfolding d' by (rule confirmationBudget_cong) simp_all
  ultimately show ?thesis using DataReceivedISR d' by simp
next
  case (SendMessage dat dataLength destination)
  then show ?thesis
    using enqueueNewMessage_budget [of dat dataLength destination False d d'] assms(2,3)
    by (simp add: sendMessage_def)
next
  case (SendConfirmedMessage dat dataLength destination)
  then show ?thesis
    using enqueueNewMessage_budget [of dat dataLength destination True d d'] assms(2,3)
    by (simp add: sendConfirmedMessage_def)
qed

lemma confirmedSends_Cons: "confirmedSends (s # ss) = confirmedSends [s] + confirmedSends ss"
  by (cases s) simp_all

lemma run_budget:
  assumes "\<And>m x x'. handleForeign m x = Inr x' \<Longrightarrow>
             confirmationBudget x' \<le> confirmationBudget x \<and> mClient x' = mClient x"
    and "stagedForBroadcast (mClient d)"
    and "run handleForeign steps d = Inr d'"
  shows "confirmationBudget d' \<le> confirmationBudget d + confirmedSends steps"
  using assms(2,3)
proof (induction steps arbitrary: d)
  case Nil
  then show ?case by simp
next
  case (Cons s ss)
  obtain d1 where s: "step handleForeign s d = Inr d1"
    and r: "run handleForeign ss d1 = Inr d'"
    using Cons.prems(2) by (auto split: sum.splits)
  have "confirmationBudget d1 \<le> confirmationBudget d + confirmedSends [s]
        \<and> stagedForBroadcast (mClient d1)"
    by (rule step_budget [OF _ Cons.prems(1) s]) (erule assms(1))
  then have one: "confirmationBudget d1 \<le> confirmationBudget d + confirmedSends [s]"
    and inv: "stagedForBroadcast (mClient d1)"
    by simp_all
  have "confirmationBudget d' \<le> confirmationBudget d1 + confirmedSends ss"
    by (rule Cons.IH [OF inv r])
  then show ?case
    using one confirmedSends_Cons [of s ss] by simp
qed

text \<open>
  A device that has run \<open>begin\<close> has no frame staged, and the forwarding handler of the
  router keeps the accounting as the handler of the plain device does, so the runs of a
  router obey the same bound.
\<close>

lemma stagedForBroadcast_begin:
  "stagedForBroadcast (mClient (QuackMeshDevice_begin millis (QuackMeshDevice_init mac)))"
  by (simp add: stagedForBroadcast_def QuackMeshDevice_begin_def QuackMeshDevice_init_def
      ESPNowClient_init_def)

lemma router_run_budget:
  assumes "stagedForBroadcast (mClient r)" and "run forwardMessage steps r = Inr r'"
  shows "confirmationBudget r' \<le> confirmationBudget r + confirmedSends steps"
  by (rule run_budget [OF _ assms]) (erule forwardMessage_budget)

section \<open>Claims about the routing table and the seen-set\<close>

text \<open>
  Claim C1: the routing table holds at most \<open>max_routing\<close> (10) entries at all times,
  because \<open>addOrUpdateRoutingInfo\<close> at capacity evicts the entry with the smallest
  remaining time before it inserts. The function is evaluated on the router \<open>routerC\<close>
  for eleven calls with eleven different destinations: all eleven entries are in the
  table afterwards, the first one included, while \<open>mMaxRoutingEntries\<close> is 10. (The
  seen-set half of the claim holds, see \<open>rememberMessage_bounded\<close>; the table never
  shrinks under \<open>addOrUpdateRoutingInfo\<close>, see \<open>addOrUpdateRoutingInfo_length\<close>.)
\<close>

theorem C1_routing_table_grows_past_cap:
  "map (hd \<circ> r_destination)
     (mRoutingTable
        (fold (\<lambda>k. addOrUpdateRoutingInfo [k, 0, 0, 0, 0, 0] nodeB 1)
           [1, 2, 3, 4, 5, 6, 7, 8, 9, 10, 11] routerC))
     = [1, 2, 3, 4, 5, 6, 7, 8, 9, 10, 11]
   \<and> mMaxRoutingEntries
        (fold (\<lambda>k. addOrUpdateRoutingInfo [k, 0, 0, 0, 0, 0] nodeB 1)
           [1, 2, 3, 4, 5, 6, 7, 8, 9, 10, 11] routerC) = 10"
  by (simp add: node_simps device_simps)

text \<open>
  Claim C2, as the code has it. For every call of \<open>addOrUpdateRoutingInfo\<close>: no entry
  of the routing table changes its destination or gets a larger hop count, and every
  entry whose hop count is not larger than the new one is left as it is, so the hop
  count of an entry is non-increasing while the entry is alive. The table itself is not
  kept unchanged: when no entry for the destination has a larger hop count, the new
  route is appended behind the existing entries; otherwise the first entry for the
  destination with a larger hop count takes the new hop count, the new link and a fresh
  TTL, and nothing is appended. Only the routing table of the router changes.
\<close>

theorem C2_better_entry_kept_and_hops_never_increase:
  "(\<forall>i<length (mRoutingTable r).
      r_hops (mRoutingTable (addOrUpdateRoutingInfo destination link hops r) ! i)
        \<le> r_hops (mRoutingTable r ! i)
      \<and> r_destination (mRoutingTable (addOrUpdateRoutingInfo destination link hops r) ! i)
          = r_destination (mRoutingTable r ! i))
   \<and> (\<forall>j<length (mRoutingTable r).
        r_hops (mRoutingTable r ! j) \<le> hops \<longrightarrow>
        mRoutingTable (addOrUpdateRoutingInfo destination link hops r) ! j
          = mRoutingTable r ! j)
   \<and> ((\<forall>i<length (mRoutingTable r).
          isAddressMatching (r_destination (mRoutingTable r ! i)) destination \<longrightarrow>
          r_hops (mRoutingTable r ! i) \<le> hops) \<longrightarrow>
        mRoutingTable (addOrUpdateRoutingInfo destination link hops r) =
          mRoutingTable r @
            [\<lparr> r_destination = take 6 destination, r_link = take 6 link, r_hops = hops,
               r_timestamp = ucast (mRoutingTableUpdateTimeout r) \<rparr>])
   \<and> (\<forall>k<length (mRoutingTable r).
        isAddressMatching (r_destination (mRoutingTable r ! k)) destination
        \<and> hops < r_hops (mRoutingTable r ! k)
        \<and> (\<forall>i<k. isAddressMatching (r_destination (mRoutingTable r ! i)) destination \<longrightarrow>
                  r_hops (mRoutingTable r ! i) \<le> hops) \<longrightarrow>
        mRoutingTable (addOrUpdateRoutingInfo destination link hops r) =
          (mRoutingTable r)
            [k := (mRoutingTable r ! k)
                    \<lparr>r_hops := hops, r_timestamp := ucast (mRoutingTableUpdateTimeout r),
                      r_link := take 6 link\<rparr>])
   \<and> addOrUpdateRoutingInfo destination link hops r =
       r\<lparr>mRoutingTable := mRoutingTable (addOrUpdateRoutingInfo destination link hops r)\<rparr>"
proof -
  let ?T = "mRoutingTable r"
  let ?R = "mRoutingTable (addOrUpdateRoutingInfo destination link hops r)"
  let ?new = "\<lparr> r_destination = take 6 destination, r_link = take 6 link, r_hops = hops,
                 r_timestamp = ucast (mRoutingTableUpdateTimeout r) \<rparr>"
  let ?upd = "\<lambda>e. e\<lparr>r_hops := hops, r_timestamp := ucast (mRoutingTableUpdateTimeout r),
                      r_link := take 6 link\<rparr>"
  obtain res n where loop:
    "routingLoop destination link hops (mRoutingTableUpdateTimeout r) ?T 0 0 ?T = (res, n)"
    by (cases "routingLoop destination link hops (mRoutingTableUpdateTimeout r) ?T 0 0 ?T")
  have none: "res = None"
    if "\<forall>i<length ?T. isAddressMatching (r_destination (?T ! i)) destination \<longrightarrow>
          r_hops (?T ! i) \<le> hops"
    using routingLoop_None [of ?T destination hops link "mRoutingTableUpdateTimeout r" ?T 0 0]
      loop that
    by (simp add: all_set_conv_all_nth)
  have first: "res = Some (?T[k := ?upd (?T ! k)])"
    if "k < length ?T" "isAddressMatching (r_destination (?T ! k)) destination"
      "hops < r_hops (?T ! k)"
      "\<forall>i<k. isAddressMatching (r_destination (?T ! i)) destination \<longrightarrow>
          r_hops (?T ! i) \<le> hops" for k
    using routingLoop_first [of ?T 0 ?T k destination hops link "mRoutingTableUpdateTimeout r" 0]
      loop that
    by simp
  have whole: "addOrUpdateRoutingInfo destination link hops r = r\<lparr>mRoutingTable := ?R\<rparr>"
    using loop by (cases res) (simp_all add: addOrUpdateRoutingInfo_def Let_def)
  show ?thesis
  proof (cases res)
    case None
    then have R: "?R = ?T @ [?new]"
      using loop by (simp add: addOrUpdateRoutingInfo_def Let_def)
    have no_first: "\<not> (k < length ?T \<and> isAddressMatching (r_destination (?T ! k)) destination
        \<and> hops < r_hops (?T ! k)
        \<and> (\<forall>i<k. isAddressMatching (r_destination (?T ! i)) destination \<longrightarrow>
              r_hops (?T ! i) \<le> hops))" for k
      using first [of k] None by auto
    show ?thesis
      unfolding R using no_first whole R by (auto simp: nth_append)
  next
    case (Some T')
    then obtain k where k: "k < length ?T" "hops < r_hops (?T ! k)" "T' = ?T[k := ?upd (?T ! k)]"
      using routingLoop_Some [of ?T 0 ?T destination link hops "mRoutingTableUpdateTimeout r" 0 T' n]
        loop by auto
    have R: "?R = T'"
      using loop Some by (simp add: addOrUpdateRoutingInfo_def)
    have mono: "\<forall>i<length ?T. r_hops (T' ! i) \<le> r_hops (?T ! i)
                  \<and> r_destination (T' ! i) = r_destination (?T ! i)"
      using k by (auto simp: nth_list_update less_imp_le)
    have same: "\<forall>j<length ?T. r_hops (?T ! j) \<le> hops \<longrightarrow> T' ! j = ?T ! j"
      using k by (auto simp: nth_list_update)
    have app: "(\<forall>i<length ?T. isAddressMatching (r_destination (?T ! i)) destination \<longrightarrow>
                  r_hops (?T ! i) \<le> hops) \<longrightarrow> T' = ?T @ [?new]"
      using none Some by auto
    have upd: "\<forall>k<length ?T. isAddressMatching (r_destination (?T ! k)) destination
        \<and> hops < r_hops (?T ! k)
        \<and> (\<forall>i<k. isAddressMatching (r_destination (?T ! i)) destination \<longrightarrow>
              r_hops (?T ! i) \<le> hops) \<longrightarrow> T' = ?T[k := ?upd (?T ! k)]"
      using first Some by auto
    show ?thesis
      unfolding R using mono same app upd whole R by simp
  qed
qed

text \<open>
  The theorem of claim C2 at \<open>routerC\<close> holding a route to \<open>nodeB\<close> with 1 hop, for a
  second route to \<open>nodeB\<close> with 2 hops: the entry with 1 hop is unmodified.
\<close>

theorem C2_better_entry_kept_and_hops_never_increase_witness:
  "mRoutingTable (addOrUpdateRoutingInfo nodeB nodeB 1 routerC)
     = [\<lparr> r_destination = nodeB, r_link = nodeB, r_hops = 1, r_timestamp = 10000 \<rparr>]
   \<and> (1 :: uint8_t) \<le> 2
   \<and> mRoutingTable
        (addOrUpdateRoutingInfo nodeB nodeA 2 (addOrUpdateRoutingInfo nodeB nodeB 1 routerC)) ! 0
       = \<lparr> r_destination = nodeB, r_link = nodeB, r_hops = 1, r_timestamp = 10000 \<rparr>"
  using C2_better_entry_kept_and_hops_never_increase
    [of "addOrUpdateRoutingInfo nodeB nodeB 1 routerC" nodeB nodeA 2]
  by (simp add: node_simps device_simps)

text \<open>
  Claim C2 as stated (the routing table is kept unchanged, no new entry is inserted)
  fails on \<open>routerC\<close>: after a route to \<open>nodeB\<close> with 1 hop, the call for \<open>nodeB\<close>
  with 2 hops over another link appends a second entry for \<open>nodeB\<close>.
\<close>

theorem C2_worse_route_appends_duplicate:
  "mRoutingTable (addOrUpdateRoutingInfo nodeB nodeB 1 routerC)
     = [\<lparr> r_destination = nodeB, r_link = nodeB, r_hops = 1, r_timestamp = 10000 \<rparr>]
   \<and> mRoutingTable
     (addOrUpdateRoutingInfo nodeB nodeA 2 (addOrUpdateRoutingInfo nodeB nodeB 1 routerC))
     = [\<lparr> r_destination = nodeB, r_link = nodeB, r_hops = 1, r_timestamp = 10000 \<rparr>,
        \<lparr> r_destination = nodeB, r_link = nodeA, r_hops = 2, r_timestamp = 10000 \<rparr>]"
  by (simp add: node_simps device_simps)

text \<open>
  Claim C3: the periodic cleanup removes every seen-set entry whose remaining time is
  at or below zero, so that no entry survives a cleanup once \<open>seen_ttl\<close> (2000 ms) has
  elapsed. Evaluated on \<open>receiverB\<close>: a frame is remembered at clock 0 and the cleanup
  runs at 1001 and at 2001, each time one millisecond late. After 2001 ms the entry is
  still in the seen-set, with the wrapped timestamp \<open>2^32 - 1\<close>, and the frame still
  counts as seen.
\<close>

theorem C3_expired_seen_entry_survives_cleanup:
  "map s_timestamp
     (mSeenMessages
        (updateSeenMessages 2001 (updateSeenMessages 1001
           (rememberMessage confirmedFrame receiverB)))) = [4294967295]
   \<and> isMessageAlreadySeen confirmedFrame
        (updateSeenMessages 2001 (updateSeenMessages 1001
           (rememberMessage confirmedFrame receiverB)))"
  by (simp add: node_simps device_simps)

section \<open>Claims about status callbacks\<close>






section \<open>Claims about the link adapter\<close>

text \<open>
  Claim C5, as the code has it. With a frame \<open>sd\<close> staged, one \<open>update\<close> calls the
  sent-callback exactly when a status update is pending, a sent-callback is set and the
  status is terminal (\<open>Fail\<close>, \<open>SendSuccess\<close>, or \<open>PartialFail\<close> with no tries left); a
  \<open>PartialFail\<close> with tries left, or no pending status, reaches no callback and keeps the
  frame staged. The one call made carries \<open>SendBroadcast\<close> if the frame's link
  destination is the broadcast address, whatever the terminal outcome was, and otherwise
  \<open>SendSuccess\<close> for success and \<open>Fail\<close> for failure. A pending terminal status drops
  the staged frame and clears \<open>WAITING_FOR_DATA_SENT_MUTEX\<close>. So the remap occurs exactly
  when a terminal outcome is reached for the broadcast address, and a terminal \<open>Fail\<close>
  is delivered as \<open>Fail\<close> for every destination other than the broadcast address.
\<close>

theorem C5_terminal_status_remapped_for_broadcast_destination:
  assumes "mNextDataToSend c = Some sd"
  shows "\<exists>evs c'. ESPNowClient_update time driverStatus c = Inr (evs, c')
         \<and> sentStatuses evs =
             (if DATA_SENT_UPDATE_MUTEX c \<and> mOnDataSentCallback c
                 \<and> (LAST_SENT_STATUS c = Fail \<or> LAST_SENT_STATUS c = SendSuccess
                      \<or> (LAST_SENT_STATUS c = PartialFail \<and> sd_maxTriesLeft sd = 0))
              then [if isAddressMatching (sd_destAddress sd) BROADCAST_ADDRESS then SendBroadcast
                    else if LAST_SENT_STATUS c = SendSuccess then SendSuccess else Fail]
              else [])
         \<and> (if DATA_SENT_UPDATE_MUTEX c
                 \<and> (LAST_SENT_STATUS c = Fail \<or> LAST_SENT_STATUS c = SendSuccess
                      \<or> (LAST_SENT_STATUS c = PartialFail \<and> sd_maxTriesLeft sd = 0))
             then mNextDataToSend c' = None \<and> \<not> WAITING_FOR_DATA_SENT_MUTEX c'
             else map_option sd_destAddress (mNextDataToSend c') = Some (sd_destAddress sd))"
proof -
  define terminal where "terminal = (DATA_SENT_UPDATE_MUTEX c
     \<and> (LAST_SENT_STATUS c = Fail \<or> LAST_SENT_STATUS c = SendSuccess
          \<or> (LAST_SENT_STATUS c = PartialFail \<and> sd_maxTriesLeft sd = 0)))"
  define X where "X = (if isAddressMatching (sd_destAddress sd) BROADCAST_ADDRESS
                       then SendBroadcast
                       else if LAST_SENT_STATUS c = SendSuccess then SendSuccess else Fail)"
  define evs1 where "evs1 = (if terminal \<and> mOnDataSentCallback c then [SentStatus X] else [])"
  have "\<exists>c1. update_sentStatus (update_received c) =
           Inr (if terminal \<and> mOnDataSentCallback (update_received c)
                then [SentStatus X] else [], c1)
         \<and> mNextDataToSend c1 = (if terminal then None else Some sd)
         \<and> WAITING_FOR_DATA_SENT_MUTEX c1 =
             (if terminal then False else WAITING_FOR_DATA_SENT_MUTEX (update_received c))"
    by (rule update_sentStatus_staged)
      (simp_all add: assms terminal_def X_def update_received_fields)
  then obtain c1
    where c1: "update_sentStatus (update_received c) = Inr (evs1, c1)"
      and staged: "mNextDataToSend c1 = (if terminal then None else Some sd)"
      and waiting: "WAITING_FOR_DATA_SENT_MUTEX c1 =
                      (if terminal then False else WAITING_FOR_DATA_SENT_MUTEX c)"
    unfolding evs1_def update_received_fields by blast
  define c2 where "c2 = update_emit time driverStatus c1"
  obtain evs2 c3 where p: "update_process time c2 = (evs2, c3)"
    by (cases "update_process time c2")
  have evs2: "sentStatuses evs2 = []"
    using update_process_statuses [of time c2] p by simp
  have c3: "mNextDataToSend c3 = mNextDataToSend c2"
    "WAITING_FOR_DATA_SENT_MUTEX c3 = WAITING_FOR_DATA_SENT_MUTEX c2"
    using update_process_fields [of time c2] p by simp_all
  have upd: "ESPNowClient_update time driverStatus c = Inr (evs1 @ evs2, c3)"
    using c1 p by (simp add: ESPNowClient_update_def c2_def)
  have statuses: "sentStatuses (evs1 @ evs2) =
      (if terminal \<and> mOnDataSentCallback c then [X] else [])"
    using evs2 by (simp add: sentStatuses_append evs1_def)
  have state: "if terminal
      then mNextDataToSend c3 = None \<and> \<not> WAITING_FOR_DATA_SENT_MUTEX c3
      else map_option sd_destAddress (mNextDataToSend c3) = Some (sd_destAddress sd)"
  proof (cases terminal)
    case True
    then have "mNextDataToSend c1 = None" and "\<not> WAITING_FOR_DATA_SENT_MUTEX c1"
      using staged waiting by simp_all
    moreover from this have "c2 = c1"
      by (simp add: update_emit_idle c2_def)
    ultimately show ?thesis
      using c3 True by simp
  next
    case False
    then have "mNextDataToSend c1 = Some sd"
      using staged by simp
    then show ?thesis
      using c3 False update_emit_staged [of time driverStatus c1] by (simp add: c2_def)
  qed
  have called: "(terminal \<and> mOnDataSentCallback c) =
      (DATA_SENT_UPDATE_MUTEX c \<and> mOnDataSentCallback c
        \<and> (LAST_SENT_STATUS c = Fail \<or> LAST_SENT_STATUS c = SendSuccess
             \<or> (LAST_SENT_STATUS c = PartialFail \<and> sd_maxTriesLeft sd = 0)))"
    by (auto simp: terminal_def)
  have "\<exists>evs c'. ESPNowClient_update time driverStatus c = Inr (evs, c')
         \<and> sentStatuses evs = (if terminal \<and> mOnDataSentCallback c then [X] else [])
         \<and> (if terminal
             then mNextDataToSend c' = None \<and> \<not> WAITING_FOR_DATA_SENT_MUTEX c'
             else map_option sd_destAddress (mNextDataToSend c') = Some (sd_destAddress sd))"
    using upd statuses state by blast
  then show ?thesis
    unfolding called unfolding terminal_def X_def .
qed

text \<open>
  The theorem of claim C5 at \<open>failedClient\<close>, whose frame for \<open>nodeB\<close> has the terminal
  status \<open>Fail\<close>: the sent-callback receives \<open>Fail\<close> and the adapter is idle again.
\<close>

theorem C5_terminal_status_remapped_for_broadcast_destination_witness:
  "DATA_SENT_UPDATE_MUTEX failedClient \<and> mOnDataSentCallback failedClient
   \<and> LAST_SENT_STATUS failedClient = Fail
   \<and> map_option sd_destAddress (mNextDataToSend failedClient) = Some nodeB
   \<and> map_sum id (sentStatuses \<circ> fst) (ESPNowClient_update 200 0 failedClient) = Inr [Fail]
   \<and> map_sum id (mNextDataToSend \<circ> snd) (ESPNowClient_update 200 0 failedClient) = Inr None"
  using C5_terminal_status_remapped_for_broadcast_destination
    [of failedClient "the (mNextDataToSend failedClient)" 200 0]
  by (simp add: node_simps device_simps client_simps)

text \<open>
  Claim C5 as stated (a terminal \<open>Fail\<close> is delivered as \<open>Fail\<close> also for the broadcast
  address) fails: \<open>linkClient\<close> stages a frame for the broadcast address, the driver
  rejects the transmission at clock 100, which records the terminal status \<open>Fail\<close>, and
  the next \<open>update\<close> calls the sent-callback with \<open>SendBroadcast\<close>.
\<close>

theorem C5_driver_error_to_broadcast_reported_as_broadcast:
  "map_sum id (LAST_SENT_STATUS \<circ> snd \<circ> snd)
     (clientRun [ClientSend BROADCAST_ADDRESS [1, 2, 3] 3 2 0, ClientUpdate 100 1] linkClient)
     = Inr Fail
   \<and> map_sum id (fst \<circ> snd)
        (clientRun [ClientSend BROADCAST_ADDRESS [1, 2, 3] 3 2 0, ClientUpdate 100 1,
                    ClientUpdate 200 0] linkClient)
        = Inr [SentStatus SendBroadcast]"
  by (simp add: node_simps device_simps client_simps)

text \<open>
  Claim C10: \<open>ESPNowClient::send\<close> returns \<open>-1\<close> only while a transmitted frame is
  awaiting its sent-status. Evaluated on \<open>linkClient\<close>: a frame for \<open>nodeB\<close> is accepted
  by \<open>send\<close> with two tries and transmitted at clock 100; the driver then reports that
  the transmission failed, and the \<open>update\<close> at 200 reconciles that status
  (\<open>PartialFail\<close>, one try left). From then on no status is pending and no transmission
  is under way, but \<open>WAITING_FOR_DATA_SENT_MUTEX\<close> is still set: the frame is not
  retried, no sent-callback is made, and a \<open>send\<close> at clock 100000 still returns \<open>-1\<close>.
  (The other half of the claim holds: \<open>send_replaces_staged_frame\<close>.)
\<close>

theorem C10_send_busy_for_ever_after_partial_fail:
  "map_sum id fst
     (clientRun [ClientSend nodeB [1, 2, 3] 3 2 0, ClientUpdate 100 0, ClientDataSentISR 1,
                 ClientUpdate 200 0, ClientUpdate 100000 0, ClientSend nodeA [9] 1 2 0]
        linkClient) = Inr [0, - 1]
   \<and> map_sum id (fst \<circ> snd)
       (clientRun [ClientSend nodeB [1, 2, 3] 3 2 0, ClientUpdate 100 0, ClientDataSentISR 1,
                   ClientUpdate 200 0, ClientUpdate 100000 0, ClientSend nodeA [9] 1 2 0]
          linkClient) = Inr []
   \<and> map_sum id (DATA_SENT_UPDATE_MUTEX \<circ> snd \<circ> snd)
       (clientRun [ClientSend nodeB [1, 2, 3] 3 2 0, ClientUpdate 100 0, ClientDataSentISR 1,
                   ClientUpdate 200 0] linkClient) = Inr False
   \<and> map_sum id (LAST_SENT_STATUS \<circ> snd \<circ> snd)
       (clientRun [ClientSend nodeB [1, 2, 3] 3 2 0, ClientUpdate 100 0, ClientDataSentISR 1,
                   ClientUpdate 200 0] linkClient) = Inr Undetermined
   \<and> map_sum id (WAITING_FOR_DATA_SENT_MUTEX \<circ> snd \<circ> snd)
       (clientRun [ClientSend nodeB [1, 2, 3] 3 2 0, ClientUpdate 100 0, ClientDataSentISR 1,
                   ClientUpdate 200 0] linkClient) = Inr True
   \<and> map_sum id (map_option sd_maxTriesLeft \<circ> mNextDataToSend \<circ> snd \<circ> snd)
       (clientRun [ClientSend nodeB [1, 2, 3] 3 2 0, ClientUpdate 100 0, ClientDataSentISR 1,
                   ClientUpdate 200 0] linkClient) = Inr (Some 1)"
  by (simp add: node_simps device_simps client_simps)

section \<open>Claims about forwarding and local delivery\<close>

text \<open>
  Claim C6: the hop count of a forwarded frame is strictly less than the received one,
  for every value of the 8-bit field. Evaluated on \<open>routerC\<close> for the received frame
  \<open>zeroHopFrame\<close>, whose hop count is 0: the test \<open>hopCount - 1 == 0\<close> is made in \<open>int\<close> and fails, and the frame
  is enqueued for forwarding with hop count 255. (For every other received hop count the
  forwarded one is one less, and nothing is forwarded for 1: \<open>forwardMessage_queue\<close>,
  \<open>hopCount_decrement\<close>.)
\<close>

theorem C6_zero_hop_count_forwarded_as_255:
  "map_sum id (map (m_hopCount \<circ> q_message) \<circ> mMessageQueue)
     (forwardMessage zeroHopFrame routerC) = Inr [255]"
  by (simp add: node_simps device_simps)

text \<open>
  Claim C7, as the code has it: a Confirmed frame \<open>m\<close> for the receiver \<open>d\<close>, not seen
  before, is handled twice in a row. The first call delivers it to the message callback
  and enqueues one Acknowledgement frame; the second call changes nothing, so the
  callback has fired once and one acknowledgement is enqueued. At the sender \<open>s\<close>, which
  holds the PendingConfirmation of the send, the acknowledgement fires the status
  callback once with \<open>SendSuccess\<close> and erases the entry; a second copy of the
  acknowledgement changes nothing.
\<close>

theorem C7_duplicate_confirmed_frame_acknowledged_once:
  assumes "m_type m = 1" and "\<not> isMessageAlreadySeen m d" and "mOnMessageCallback d"
    and "0 < mSeenMessagesCleanupTimeout d"
    and "isAddressMatching (m_destAddress m) (getMACAddress d)"
    and "Message_ctor [0, 0] 3 (m_id m) 3 (getMACAddress d) (m_srcAddress m) 0 [] = Inr ack"
    and "mMessagesLeftToConfirm s =
           [\<lparr> c_isSent = True, c_timestamp = t, c_id = m_id m,
              c_destAddress = take 6 (m_destAddress m) \<rparr>]"
    and "\<not> isMessageAlreadySeen ack s" and "mSentStatusCallback s"
    and "0 < mSeenMessagesCleanupTimeout s"
  shows "\<exists>d1 s1. handleOwnMessage m d = Inr d1 \<and> handleOwnMessage m d1 = Inr d1
           \<and> messageCalls d1 = messageCalls d @ [(1, m_srcAddress m, m_data m, m_len m)]
           \<and> mMessageQueue d1 =
               mMessageQueue d @ [\<lparr> q_type = Acknowledgement, q_channel = 0, q_message = ack \<rparr>]
           \<and> handleOwnMessage ack s = Inr s1 \<and> handleOwnMessage ack s1 = Inr s1
           \<and> statusCalls s1 = statusCalls s @ [SendSuccess]
           \<and> mMessagesLeftToConfirm s1 = []"
proof -
  let ?r = "rememberMessage m d"
  let ?d1 = "?r\<lparr>mMessageQueue := mMessageQueue ?r @
               [\<lparr> q_type = Acknowledgement, q_channel = 0, q_message = ack \<rparr>],
             messageCalls := messageCalls ?r @ [(1, m_srcAddress m, m_data m, m_len m)]\<rparr>"
  have first: "handleOwnMessage m d = Inr ?d1"
    using assms(1-3,6)
    by (simp add: handleOwnMessage_def Let_def sendAcknowledgement_def rememberMessage_fields
        getMACAddress_def)
  have "mSeenMessages ?d1 = mSeenMessages ?r"
    by simp
  then have "isMessageAlreadySeen m ?d1"
    using rememberMessage_seen [OF assms(2) assms(4)] isMessageAlreadySeen_cong by blast
  then have second: "handleOwnMessage m ?d1 = Inr ?d1"
    by (rule handleOwnMessage_seen)
  have calls: "messageCalls ?d1 = messageCalls d @ [(1, m_srcAddress m, m_data m, m_len m)]"
    by (simp add: rememberMessage_fields)
  have queue: "mMessageQueue ?d1 =
      mMessageQueue d @ [\<lparr> q_type = Acknowledgement, q_channel = 0, q_message = ack \<rparr>]"
    by (simp add: rememberMessage_fields)
  let ?q = "rememberMessage ack s"
  let ?s1 = "?q\<lparr>mMessagesLeftToConfirm := [], statusCalls := statusCalls ?q @ [SendSuccess]\<rparr>"
  have ackf: "m_type ack = 3" "m_id ack = m_id m" "m_srcAddress ack = take 6 (getMACAddress d)"
    using assms(6) by (auto simp: Message_ctor_def)
  have erase: "eraseConfirmed (m_id ack) (m_srcAddress ack) (mMessagesLeftToConfirm ?q) = Some []"
    using assms(5,7) ackf by (simp add: rememberMessage_fields isAddressMatching_take)
  have third: "handleOwnMessage ack s = Inr ?s1"
    using assms(8,9) ackf(1) erase
    by (simp add: handleOwnMessage_def Let_def processReceivedAcknowledgement_def
        rememberMessage_fields)
  have "mSeenMessages ?s1 = mSeenMessages ?q"
    by simp
  then have "isMessageAlreadySeen ack ?s1"
    using rememberMessage_seen [OF assms(8) assms(10)] isMessageAlreadySeen_cong by blast
  then have fourth: "handleOwnMessage ack ?s1 = Inr ?s1"
    by (rule handleOwnMessage_seen)
  have status: "statusCalls ?s1 = statusCalls s @ [SendSuccess]" "mMessagesLeftToConfirm ?s1 = []"
    by (simp_all add: rememberMessage_fields)
  show ?thesis
    using first second calls queue third fourth status by blast
qed

text \<open>
  The theorem of claim C7 at \<open>receiverB\<close> and \<open>senderPending\<close> for \<open>confirmedFrame\<close>
  and its acknowledgement \<open>ackFrame\<close>.
\<close>

theorem C7_duplicate_confirmed_frame_acknowledged_once_witness:
  "m_type confirmedFrame = 1 \<and> \<not> isMessageAlreadySeen confirmedFrame receiverB
   \<and> \<not> isMessageAlreadySeen ackFrame senderPending
   \<and> map c_id (mMessagesLeftToConfirm senderPending) = [m_id confirmedFrame]
   \<and> map_sum id (map fst \<circ> messageCalls) (handleOwnMessage confirmedFrame receiverB) = Inr [1]
   \<and> map_sum id (map (m_type \<circ> q_message) \<circ> mMessageQueue)
        (handleOwnMessage confirmedFrame receiverB) = Inr [3]
   \<and> map_sum id statusCalls (handleOwnMessage ackFrame senderPending) = Inr [SendSuccess]"
  using C7_duplicate_confirmed_frame_acknowledged_once
    [of confirmedFrame receiverB ackFrame senderPending 1000]
  by (simp add: node_simps device_simps client_simps)

text \<open>
  Claim C7 as stated (two Acknowledgement frames, one per received copy) fails on
  \<open>receiverB\<close>: after the first copy of \<open>confirmedFrame\<close> the queue holds one
  Acknowledgement, and after the second copy it still holds that one.
\<close>

theorem C7_second_copy_enqueues_no_acknowledgement:
  "map_sum id (map q_type \<circ> mMessageQueue) (handleOwnMessage confirmedFrame receiverB)
     = Inr [Acknowledgement]
   \<and> map_sum id (map q_type \<circ> mMessageQueue)
        (handleOwnMessage confirmedFrame (projr (handleOwnMessage confirmedFrame receiverB)))
        = Inr [Acknowledgement]"
  by (simp add: node_simps device_simps)

text \<open>
  Claim C9: in \<open>handleOwnMessage\<close>, for a frame not yet seen, a type outside
  \<open>{0, 1, 3}\<close> reaches the message callback without a guard: with no callback set the
  empty \<open>std::function\<close> is called (\<open>BadFunctionCall\<close>), with a callback set the frame is
  delivered with its own type. A frame of type 0 or 1 is delivered when a callback is
  set and is handled without any callback invocation when none is set.
\<close>

theorem C9_default_dispatch_calls_unguarded_callback:
  assumes "\<not> isMessageAlreadySeen m d"
  shows "(m_type m \<notin> {0, 1, 3} \<and> \<not> mOnMessageCallback d \<longrightarrow>
            handleOwnMessage m d = Inl BadFunctionCall)
       \<and> (m_type m \<notin> {0, 1, 3} \<and> mOnMessageCallback d \<longrightarrow>
            (\<exists>d'. handleOwnMessage m d = Inr d' \<and>
               messageCalls d' =
                 messageCalls d @ [(m_type m, m_srcAddress m, m_data m, m_len m)]))
       \<and> (m_type m \<in> {0, 1} \<and> \<not> mOnMessageCallback d \<longrightarrow>
            (\<exists>d'. handleOwnMessage m d = Inr d' \<and> messageCalls d' = messageCalls d))
       \<and> (m_type m \<in> {0, 1} \<and> mOnMessageCallback d \<longrightarrow>
            (\<exists>d'. handleOwnMessage m d = Inr d' \<and>
               messageCalls d' =
                 messageCalls d @ [(m_type m, m_srcAddress m, m_data m, m_len m)]))"
  using assms
  by (auto simp: handleOwnMessage_def Let_def rememberMessage_fields sendAcknowledgement_def
      Message_ctor_def)

text \<open>
  The theorem of claim C9 at a node \<open>nodeB\<close> without a message callback: the frame of
  the reserved type 2 ends in \<open>BadFunctionCall\<close>, the Confirmed frame is handled without
  a callback invocation.
\<close>

theorem C9_default_dispatch_calls_unguarded_callback_witness:
  "m_type reservedFrame = 2 \<and> \<not> mOnMessageCallback (QuackMeshDevice_init nodeB)
   \<and> \<not> isMessageAlreadySeen reservedFrame (QuackMeshDevice_init nodeB)
   \<and> handleOwnMessage reservedFrame (QuackMeshDevice_init nodeB) = Inl BadFunctionCall
   \<and> map_sum id messageCalls (handleOwnMessage confirmedFrame (QuackMeshDevice_init nodeB))
        = Inr []"
  using C9_default_dispatch_calls_unguarded_callback [of reservedFrame "QuackMeshDevice_init nodeB"]
    C9_default_dispatch_calls_unguarded_callback [of confirmedFrame "QuackMeshDevice_init nodeB"]
  by (simp add: node_simps device_simps)

end
